theory Spec2Isabelle
  imports Main "HOL-Library.Sublist"
begin

section \<open>Data model of the monitor state store (state/monitorState.js)\<close>

text \<open>
  The store keeps one mutable object \<open>state\<close>; every exported function reads and
  writes it. Here the store is a record that each function takes and returns.
  Identifiers of monitors, contacts and contact groups are strings (UUID texts, or the
  reserved id \<open>NETWORK\<close>). A call of \<open>uuidv4()\<close> for an incident or an alert is
  a draw from the counter \<open>nextId\<close>: every draw gives a value not given before.
  The clock (\<open>new Date()\<close>, \<open>Date.now()\<close>) is a parameter \<open>now\<close> in
  milliseconds; one call of a store function reads one clock value.
  Logging (\<open>addLog\<close>, \<open>addActivity\<close>) and persistence (\<open>saveState\<close>) write
  only the log lists and the state file, which no function below reads; they are left out.
\<close>

datatype monitor_status = UP | DOWN | PENDING

datatype incident_status = Ongoing | IncidentResolved

datatype alert_status = Active | Acknowledged | AlertResolved

record ssl_info =
  issuer :: string
  validFrom :: string
  validTo :: string
  daysRemaining :: int
  subject :: string

text \<open>The result of one probe: what \<open>checkMonitorOnce\<close> resolves to.\<close>

record check_result =
  cr_status :: monitor_status
  cr_responseTime :: int
  cr_message :: string
  cr_statusCode :: "nat option"
  cr_sslInfo :: "ssl_info option"

record history_entry =
  he_timestamp :: int
  he_status :: monitor_status
  he_responseTime :: int
  he_message :: string

text \<open>The Status object stored per monitor id in \<open>state.statuses\<close>.\<close>

record monitor_state =
  ms_status :: monitor_status
  ms_responseTime :: "int option"
  ms_message :: "string option"
  ms_lastCheck :: "int option"
  consecutiveFailures :: nat
  totalChecks :: nat
  successfulChecks :: nat
  history :: "history_entry list"
  ms_sslInfo :: "ssl_info option"

record incident_update =
  iu_timestamp :: int
  iu_status :: string
  iu_message :: string

record incident =
  inc_id :: nat
  inc_monitorId :: string
  inc_monitorName :: string
  inc_status :: incident_status
  inc_message :: string
  inc_startedAt :: int
  inc_resolvedAt :: "int option"
  inc_duration :: "int option"
  inc_updates :: "incident_update list"

record alert =
  al_id :: nat
  al_monitorId :: string
  al_monitorName :: string
  al_type :: string
  al_message :: string
  al_severity :: string
  al_status :: alert_status
  al_acknowledgedAt :: "int option"
  al_resolvedAt :: "int option"
  al_createdAt :: int

text \<open>
  \<open>expectedStatus\<close> of a monitor is a number, an array of numbers (an import format)
  or absent.
\<close>

datatype expected_status = NoExpected | Code nat | Codes "nat list"

record monitor =
  m_id :: string
  m_name :: string
  m_type :: string
  m_enabled :: bool
  m_url :: "string option"
  m_expectedStatus :: expected_status
  m_expectedContent :: "string option"
  m_schedule :: nat

record contact =
  c_id :: string
  c_name :: string
  c_email :: "string option"
  c_phone :: "string option"
  notifyEmail :: bool
  notifySms :: bool
  notifyOnDown :: bool
  notifyOnUp :: bool
  notifyOnIncident :: bool

text \<open>
  \<open>contactIds\<close> is \<open>None\<close> when the field is missing or not an array (the guard
  \<open>group.contactIds && Array.isArray(group.contactIds)\<close>).
\<close>

record contact_group =
  cg_id :: string
  cg_name :: string
  contactIds :: "string list option"

record settings =
  consecutiveFailuresThreshold :: nat
  autoResolve :: bool
  soundEnabled :: bool
  ttsEnabled :: bool
  customAlertText :: "string option"
  emailEnabled :: bool
  smtpHost :: string
  smtpUser :: string
  smsEnabled :: bool
  smsSenderId :: string

record network_status =
  isConnected :: bool
  lastChecked :: int
  lastConnectedAt :: int

text \<open>
  \<open>state.contacts\<close> and \<open>state.contactGroups\<close> are JavaScript Maps, iterated in
  insertion order: lists of entries. \<open>state.monitors\<close> and \<open>state.statuses\<close>
  are only looked up by key here: partial functions.
\<close>

record app_state =
  monitors :: "string \<rightharpoonup> monitor"
  statuses :: "string \<rightharpoonup> monitor_state"
  contacts :: "(string \<times> contact) list"
  contactGroups :: "(string \<times> contact_group) list"
  incidents :: "incident list"
  alerts :: "alert list"
  settings :: settings
  networkStatus :: network_status
  nextId :: nat

text \<open>\<open>createInitialState\<close>, at process start time \<open>t0\<close>.\<close>

definition initialSettings :: settings where
  "initialSettings = \<lparr> consecutiveFailuresThreshold = 3, autoResolve = True,
     soundEnabled = True, ttsEnabled = True, customAlertText = None,
     emailEnabled = False, smtpHost = [], smtpUser = [],
     smsEnabled = True, smsSenderId = ''PULSE'' \<rparr>"

definition createInitialState :: "int \<Rightarrow> app_state" where
  "createInitialState t0 = \<lparr> monitors = Map.empty, statuses = Map.empty,
     contacts = [], contactGroups = [], incidents = [], alerts = [],
     settings = initialSettings,
     networkStatus = \<lparr> isConnected = True, lastChecked = t0, lastConnectedAt = t0 \<rparr>,
     nextId = 0 \<rparr>"

section \<open>The status, incident and alert state machine\<close>

text \<open>The Status a monitor gets in \<open>createMonitor\<close> (and in \<open>importData\<close>).\<close>

definition initialStatus :: monitor_state where
  "initialStatus = \<lparr> ms_status = PENDING, ms_responseTime = None, ms_message = None,
     ms_lastCheck = None, consecutiveFailures = 0, totalChecks = 0, successfulChecks = 0,
     history = [], ms_sslInfo = None \<rparr>"

text \<open>\<open>monitor?.name || 'Unknown'\<close>: a missing monitor or an empty name gives Unknown.\<close>

definition monitorNameOrUnknown :: "monitor option \<Rightarrow> string" where
  "monitorNameOrUnknown mo =
     (case mo of None \<Rightarrow> ''Unknown''
      | Some m \<Rightarrow> if m_name m = [] then ''Unknown'' else m_name m)"

text \<open>\<open>createAlert\<close>: a new active alert is put at the front of \<open>state.alerts\<close>.\<close>

definition newAlert :: "int \<Rightarrow> string \<Rightarrow> string \<Rightarrow> string \<Rightarrow> string \<Rightarrow> app_state \<Rightarrow> alert" where
  "newAlert now monitorId type message severity s =
     \<lparr> al_id = nextId s, al_monitorId = monitorId,
       al_monitorName = monitorNameOrUnknown (monitors s monitorId),
       al_type = type, al_message = message, al_severity = severity,
       al_status = Active, al_acknowledgedAt = None, al_resolvedAt = None,
       al_createdAt = now \<rparr>"

definition createAlert :: "int \<Rightarrow> string \<Rightarrow> string \<Rightarrow> string \<Rightarrow> string \<Rightarrow> app_state \<Rightarrow> app_state" where
  "createAlert now monitorId type message severity s =
     s\<lparr> alerts := newAlert now monitorId type message severity s # alerts s,
        nextId := nextId s + 1 \<rparr>"

text \<open>
  \<open>createIncident\<close>: a new ongoing incident is put at the front of
  \<open>state.incidents\<close>, then one critical alert of type incident is created. The function
  does not look for an incident that is already ongoing.
\<close>

definition newIncident :: "int \<Rightarrow> string \<Rightarrow> string \<Rightarrow> app_state \<Rightarrow> incident" where
  "newIncident now monitorId message s =
     \<lparr> inc_id = nextId s, inc_monitorId = monitorId,
       inc_monitorName = monitorNameOrUnknown (monitors s monitorId),
       inc_status = Ongoing, inc_message = message, inc_startedAt = now,
       inc_resolvedAt = None, inc_duration = None,
       inc_updates = [\<lparr> iu_timestamp = now, iu_status = ''started'',
                        iu_message = ''Incident detected: '' @ message \<rparr>] \<rparr>"

definition createIncident :: "int \<Rightarrow> string \<Rightarrow> string \<Rightarrow> app_state \<Rightarrow> app_state" where
  "createIncident now monitorId message s =
     createAlert now monitorId ''incident'' message ''critical''
       (s\<lparr> incidents := newIncident now monitorId message s # incidents s,
           nextId := nextId s + 1 \<rparr>)"

definition isOngoingFor :: "string \<Rightarrow> incident \<Rightarrow> bool" where
  "isOngoingFor monitorId i = (inc_monitorId i = monitorId \<and> inc_status i = Ongoing)"

definition isActiveFor :: "string \<Rightarrow> alert \<Rightarrow> bool" where
  "isActiveFor monitorId a = (al_monitorId a = monitorId \<and> al_status a = Active)"

text \<open>
  An object found with \<open>Array.find\<close> and then assigned to is changed in place: the
  first element that satisfies the predicate is replaced, the others stay.
\<close>

fun update_first :: "('a \<Rightarrow> bool) \<Rightarrow> ('a \<Rightarrow> 'a) \<Rightarrow> 'a list \<Rightarrow> 'a list" where
  "update_first P f [] = []"
| "update_first P f (x # xs) = (if P x then f x # xs else x # update_first P f xs)"

definition resolveIncidentRecord :: "int \<Rightarrow> incident \<Rightarrow> incident" where
  "resolveIncidentRecord now i =
     i\<lparr> inc_status := IncidentResolved, inc_resolvedAt := Some now,
        inc_duration := Some (now - inc_startedAt i),
        inc_updates := inc_updates i @
          [\<lparr> iu_timestamp = now, iu_status = ''resolved'', iu_message = ''Service recovered'' \<rparr>] \<rparr>"

definition resolveAlertRecord :: "int \<Rightarrow> alert \<Rightarrow> alert" where
  "resolveAlertRecord now a = a\<lparr> al_status := AlertResolved, al_resolvedAt := Some now \<rparr>"

text \<open>
  \<open>resolveIncidentForMonitor\<close>: with no ongoing incident of the monitor it returns at
  once and changes nothing; otherwise it resolves the first one and every active alert
  of the monitor.
\<close>

definition resolveIncidentForMonitor :: "int \<Rightarrow> string \<Rightarrow> app_state \<Rightarrow> app_state" where
  "resolveIncidentForMonitor now monitorId s =
     (case find (isOngoingFor monitorId) (incidents s) of
        None \<Rightarrow> s
      | Some _ \<Rightarrow>
          s\<lparr> incidents := update_first (isOngoingFor monitorId) (resolveIncidentRecord now) (incidents s),
             alerts := map (\<lambda>a. if isActiveFor monitorId a then resolveAlertRecord now a else a) (alerts s) \<rparr>)"

text \<open>
  \<open>updateStatus\<close>. The new Status is stored first; then the incident branches run on
  the previous status and the sample's status. The function's return value is the Status
  it stored, \<open>statuses s' monitorId\<close>.
\<close>

definition currentStatusOf :: "app_state \<Rightarrow> string \<Rightarrow> monitor_state" where
  "currentStatusOf s monitorId =
     (case statuses s monitorId of Some c \<Rightarrow> c | None \<Rightarrow> initialStatus)"

definition newStatusOf :: "int \<Rightarrow> monitor_state \<Rightarrow> check_result \<Rightarrow> monitor_state" where
  "newStatusOf now currentStatus statusData =
     (let isUp = (cr_status statusData = UP);
          historyEntry = \<lparr> he_timestamp = now, he_status = cr_status statusData,
                            he_responseTime = cr_responseTime statusData,
                            he_message = cr_message statusData \<rparr>
      in \<lparr> ms_status = cr_status statusData,
           ms_responseTime = Some (cr_responseTime statusData),
           ms_message = Some (cr_message statusData),
           ms_lastCheck = Some now,
           consecutiveFailures = (if isUp then 0 else consecutiveFailures currentStatus + 1),
           totalChecks = totalChecks currentStatus + 1,
           successfulChecks =
             (if isUp then successfulChecks currentStatus + 1 else successfulChecks currentStatus),
           history = take 100 (historyEntry # history currentStatus),
           ms_sslInfo = cr_sslInfo statusData \<rparr>)"

definition updateStatus :: "int \<Rightarrow> string \<Rightarrow> check_result \<Rightarrow> app_state \<Rightarrow> app_state" where
  "updateStatus now monitorId statusData s =
     (let currentStatus = currentStatusOf s monitorId;
          previousStatus = ms_status currentStatus;
          newStatus = newStatusOf now currentStatus statusData;
          s1 = s\<lparr> statuses := (statuses s)(monitorId \<mapsto> newStatus) \<rparr>
      in if previousStatus = UP \<and> cr_status statusData = DOWN then
           createIncident now monitorId (cr_message statusData) s1
         else if previousStatus = DOWN \<and> cr_status statusData = DOWN then
           (if consecutiveFailuresThreshold (settings s1) \<le> consecutiveFailures newStatus then
              (case find (isOngoingFor monitorId) (incidents s1) of
                 None \<Rightarrow> createIncident now monitorId (cr_message statusData) s1
               | Some _ \<Rightarrow> s1)
            else s1)
         else if previousStatus = DOWN \<and> cr_status statusData = UP \<and> autoResolve (settings s1) then
           resolveIncidentForMonitor now monitorId s1
         else s1)"

text \<open>Feeding a sequence of samples, each with the time it is applied at, to one monitor.\<close>

fun feed :: "string \<Rightarrow> (int \<times> check_result) list \<Rightarrow> app_state \<Rightarrow> app_state" where
  "feed monitorId [] s = s"
| "feed monitorId (x # xs) s = feed monitorId xs (updateStatus (fst x) monitorId (snd x) s)"

definition failureCount :: "app_state \<Rightarrow> string \<Rightarrow> nat option" where
  "failureCount s monitorId = map_option consecutiveFailures (statuses s monitorId)"

definition ongoingIncidentsOf :: "app_state \<Rightarrow> string \<Rightarrow> incident list" where
  "ongoingIncidentsOf s monitorId = filter (isOngoingFor monitorId) (incidents s)"

definition incidentsOf :: "app_state \<Rightarrow> string \<Rightarrow> incident list" where
  "incidentsOf s monitorId = filter (\<lambda>i. inc_monitorId i = monitorId) (incidents s)"

definition alertsOf :: "app_state \<Rightarrow> string \<Rightarrow> alert list" where
  "alertsOf s monitorId = filter (\<lambda>a. al_monitorId a = monitorId) (alerts s)"

text \<open>
  The spec's count for the failure counter: the DOWN samples at the end of the sequence,
  back to the last UP sample (all of them when no sample is UP).
\<close>

definition downsSinceLastUp :: "(int \<times> check_result) list \<Rightarrow> nat" where
  "downsSinceLastUp rs = length (takeWhile (\<lambda>x. cr_status (snd x) = DOWN) (rev rs))"

text \<open>
  What holds of the store \<open>s'\<close> after \<open>k\<close> DOWN samples were fed to a monitor that
  was new in \<open>s\<close>.
\<close>

definition downRun :: "string \<Rightarrow> nat \<Rightarrow> app_state \<Rightarrow> app_state \<Rightarrow> bool" where
  "downRun m k s s' =
     (settings s' = settings s
      \<and> consecutiveFailures (currentStatusOf s' m) = k
      \<and> ms_status (currentStatusOf s' m) = (if k = 0 then PENDING else DOWN)
      \<and> length (incidentsOf s' m) =
          (if max 2 (consecutiveFailuresThreshold (settings s)) \<le> k then 1 else 0)
      \<and> length (alertsOf s' m) =
          (if max 2 (consecutiveFailuresThreshold (settings s)) \<le> k then 1 else 0)
      \<and> ongoingIncidentsOf s' m = incidentsOf s' m)"

text \<open>At most one ongoing incident of the monitor, and none unless its status is DOWN.\<close>

definition singleOngoing :: "app_state \<Rightarrow> string \<Rightarrow> bool" where
  "singleOngoing s m =
     (length (ongoingIncidentsOf s m) \<le> 1
      \<and> (ms_status (currentStatusOf s m) \<noteq> DOWN \<longrightarrow> ongoingIncidentsOf s m = []))"

text \<open>Samples and a store with one monitor, to run the functions on.\<close>

definition sample :: "monitor_status \<Rightarrow> string \<Rightarrow> check_result" where
  "sample st msg = \<lparr> cr_status = st, cr_responseTime = 0, cr_message = msg,
     cr_statusCode = None, cr_sslInfo = None \<rparr>"

definition demoMonitor :: monitor where
  "demoMonitor = \<lparr> m_id = ''m1'', m_name = ''api'', m_type = ''http'', m_enabled = True,
     m_url = Some ''https://example.org/health'', m_expectedStatus = NoExpected,
     m_expectedContent = None, m_schedule = 60 \<rparr>"

text \<open>The store after \<open>createMonitor\<close> of that monitor, with the auto-resolve setting given.\<close>

definition demoState :: "bool \<Rightarrow> app_state" where
  "demoState ar = (createInitialState 0)\<lparr> monitors := [''m1'' \<mapsto> demoMonitor],
     statuses := [''m1'' \<mapsto> initialStatus],
     settings := initialSettings\<lparr> autoResolve := ar \<rparr> \<rparr>"

section \<open>Recipient resolution (getRecipientsForAlert)\<close>

text \<open>
  \<open>recipientMap\<close> is a JavaScript Map: \<open>set\<close> on a key that is present replaces
  the value and keeps the key's place, on a new key it appends an entry.
\<close>

fun map_set :: "'k \<Rightarrow> 'v \<Rightarrow> ('k \<times> 'v) list \<Rightarrow> ('k \<times> 'v) list" where
  "map_set k v [] = [(k, v)]"
| "map_set k v (e # es) = (if fst e = k then (k, v) # es else e # map_set k v es)"

text \<open>Truthiness of an optional string: neither null nor the empty string.\<close>

definition truthy :: "string option \<Rightarrow> bool" where
  "truthy x = (case x of None \<Rightarrow> False | Some t \<Rightarrow> t \<noteq> [])"

definition wantsNotifications :: "contact \<Rightarrow> bool" where
  "wantsNotifications c = (notifyOnDown c \<or> notifyOnUp c \<or> notifyOnIncident c)"

record recipients =
  emailRecipients :: "contact list"
  smsRecipients :: "contact list"
  allRecipients :: "contact list"

definition addContact :: "(string \<times> contact) list \<Rightarrow> contact \<Rightarrow> (string \<times> contact) list" where
  "addContact recipientMap c =
     (if wantsNotifications c then map_set (c_id c) c recipientMap else recipientMap)"

definition addMember :: "(string \<times> contact) list \<Rightarrow> (string \<times> contact) list \<Rightarrow> string \<Rightarrow> (string \<times> contact) list" where
  "addMember cs recipientMap contactId =
     (case map_of cs contactId of None \<Rightarrow> recipientMap | Some c \<Rightarrow> addContact recipientMap c)"

definition addGroup :: "(string \<times> contact) list \<Rightarrow> (string \<times> contact) list \<Rightarrow> contact_group \<Rightarrow> (string \<times> contact) list" where
  "addGroup cs recipientMap g =
     (case contactIds g of None \<Rightarrow> recipientMap | Some ids \<Rightarrow> foldl (addMember cs) recipientMap ids)"

definition recipientMapOf :: "(string \<times> contact) list \<Rightarrow> (string \<times> contact_group) list \<Rightarrow> (string \<times> contact) list" where
  "recipientMapOf cs gs = foldl (addGroup cs) (foldl addContact [] (map snd cs)) (map snd gs)"

definition getRecipientsForAlert :: "app_state \<Rightarrow> recipients" where
  "getRecipientsForAlert s =
     (let allR = map snd (recipientMapOf (contacts s) (contactGroups s))
      in \<lparr> emailRecipients = filter (\<lambda>c. truthy (c_email c) \<and> notifyEmail c) allR,
           smsRecipients = filter (\<lambda>c. truthy (c_phone c) \<and> notifySms c) allR,
           allRecipients = allR \<rparr>)"



text \<open>
  Contacts to run the functions on: three that take SMS, one that takes mail only, and
  two contact groups that overlap.
\<close>

definition demoContact :: "string \<Rightarrow> string option \<Rightarrow> string option \<Rightarrow> bool \<Rightarrow> contact" where
  "demoContact cid email phone sms =
     \<lparr> c_id = cid, c_name = cid, c_email = email, c_phone = phone, notifyEmail = True,
       notifySms = sms, notifyOnDown = True, notifyOnUp = True, notifyOnIncident = True \<rparr>"

definition demoContacts :: "(string \<times> contact) list" where
  "demoContacts =
     [(''c1'', demoContact ''c1'' (Some ''ama@example.org'') (Some ''0241234567'') True),
      (''c2'', demoContact ''c2'' None (Some ''0201234567'') True),
      (''c3'', demoContact ''c3'' (Some ''kofi@example.org'') None False),
      (''c4'', demoContact ''c4'' None (Some ''0271234567'') True)]"

definition demoGroups :: "(string \<times> contact_group) list" where
  "demoGroups =
     [(''g1'', \<lparr> cg_id = ''g1'', cg_name = ''ops'', contactIds = Some [''c1'', ''c2''] \<rparr>),
      (''g2'', \<lparr> cg_id = ''g2'', cg_name = ''oncall'', contactIds = Some [''c2'', ''c4'', ''c1''] \<rparr>)]"

definition contactState :: app_state where
  "contactState = (demoState True)\<lparr> contacts := demoContacts, contactGroups := demoGroups \<rparr>"

text \<open>The same contacts and groups, entered in the opposite order.\<close>

definition contactStateRev :: app_state where
  "contactStateRev = (demoState True)\<lparr> contacts := rev demoContacts, contactGroups := rev demoGroups \<rparr>"

definition demoAlert :: alert where
  "demoAlert = \<lparr> al_id = 1, al_monitorId = ''m1'', al_monitorName = ''api'', al_type = ''incident'',
     al_message = ''refused'', al_severity = ''critical'', al_status = Active,
     al_acknowledgedAt = None, al_resolvedAt = None, al_createdAt = 2000 \<rparr>"

section \<open>Notification dispatch (services/notificationService.js)\<close>

text \<open>
  What leaves the process: a spoken text, one mail handed to the SMTP transport, one
  POST to the SMS provider with its recipient list, sender and message. A send that
  fails is caught and logged by the sender itself, so the calls that follow it run either way.
\<close>

datatype outbound =
    TtsSpeak string
  | EmailSend string string
  | SmsRequest "string list" string string

datatype phone_arg = OnePhone string | ManyPhones "string list"

definition sendEmail :: "settings \<Rightarrow> string \<Rightarrow> string \<Rightarrow> outbound list" where
  "sendEmail st to subj =
     (if \<not> emailEnabled st then []
      else if smtpHost st = [] \<or> smtpUser st = [] then []
      else [EmailSend to subj])"

definition sendSms :: "settings \<Rightarrow> phone_arg \<Rightarrow> string \<Rightarrow> outbound list" where
  "sendSms st phone message =
     (if \<not> smsEnabled st then []
      else [SmsRequest (case phone of OnePhone p \<Rightarrow> [p] | ManyPhones ps \<Rightarrow> ps)
              (if smsSenderId st = [] then ''PulseMonitor'' else smsSenderId st) message])"

definition sendSmsBatch :: "settings \<Rightarrow> string list \<Rightarrow> string \<Rightarrow> outbound list" where
  "sendSmsBatch st phones message =
     (if \<not> smsEnabled st then []
      else if phones = [] then []
      else sendSms st (ManyPhones phones) message)"

text \<open>
  \<open>speak\<close>: unless text-to-speech is disabled (and not forced) the text is handed to
  the speech command of the platform.
\<close>

definition speak :: "settings \<Rightarrow> string \<Rightarrow> bool \<Rightarrow> outbound list" where
  "speak st txt force = (if \<not> ttsEnabled st \<and> \<not> force then [] else [TtsSpeak txt])"

text \<open>\<open>toUpperCase\<close> on the ASCII letters.\<close>

definition toUpperCase :: "string \<Rightarrow> string" where
  "toUpperCase = map (\<lambda>c. if 97 \<le> (of_char c :: nat) \<and> (of_char c :: nat) \<le> 122
                           then char_of ((of_char c :: nat) - 32) else c)"

text \<open>\<open>smsRecipients.map(c => c.phone).filter(p => p)\<close>.\<close>

definition phonesOf :: "contact list \<Rightarrow> string list" where
  "phonesOf rs = filter (\<lambda>p. p \<noteq> []) (List.map_filter c_phone rs)"

definition isSmsRequest :: "outbound \<Rightarrow> bool" where
  "isSmsRequest ob = (case ob of SmsRequest _ _ _ \<Rightarrow> True | _ \<Rightarrow> False)"

definition sendAlertNotification :: "app_state \<Rightarrow> alert \<Rightarrow> monitor option \<Rightarrow> outbound list" where
  "sendAlertNotification s a mon =
     (let st = settings s;
          r = getRecipientsForAlert s;
          isDown = (al_type a = ''incident'' \<or> al_severity a = ''critical'');
          alertText = (case customAlertText st of None \<Rightarrow> al_message a
                       | Some t \<Rightarrow> if t = [] then al_message a else t);
          nameOrUnknown = monitorNameOrUnknown mon;
          tts = (if soundEnabled st \<and> ttsEnabled st then
                   speak st (if alertText \<noteq> [] then alertText
                             else ''Alert! ''
                               @ (case mon of None \<Rightarrow> ''Unknown service''
                                  | Some m \<Rightarrow> if m_name m = [] then ''Unknown service'' else m_name m)
                               @ '' is '' @ (if isDown then ''down'' else ''recovered'') @ ''. ''
                               @ al_message a) False
                 else []);
          mails = (if emailEnabled st \<and> emailRecipients r \<noteq> [] then
                     concat (map (\<lambda>c. sendEmail st (case c_email c of None \<Rightarrow> [] | Some e \<Rightarrow> e)
                                   (''['' @ toUpperCase (al_severity a) @ ''] '' @ nameOrUnknown
                                      @ '': '' @ al_type a))
                                 (emailRecipients r))
                   else []);
          sms = (if smsEnabled st \<and> smsRecipients r \<noteq> [] then
                   (let smsText = ''['' @ al_severity a @ ''] ''
                          @ (case mon of None \<Rightarrow> ''undefined'' | Some m \<Rightarrow> m_name m)
                          @ '': '' @ al_message a;
                        phones = phonesOf (smsRecipients r)
                    in if phones \<noteq> [] then sendSmsBatch st phones smsText else [])
                 else [])
      in tts @ mails @ sms)"

section \<open>The scheduler (handlers/socketHandlers.js)\<close>

text \<open>
  \<open>runCheck\<close> reads the monitor, awaits the probe, then applies the result. The
  part after the await is \<open>runCheckComplete\<close>: it runs when the probe resolves, on the
  state as it is then, with the monitor object read before the await.
\<close>

definition resolveFoundAlert :: "int \<Rightarrow> string \<Rightarrow> app_state \<Rightarrow> app_state" where
  "resolveFoundAlert now monitorId s =
     s\<lparr> alerts := update_first (isActiveFor monitorId) (resolveAlertRecord now) (alerts s) \<rparr>"

definition runCheckComplete :: "int \<Rightarrow> string \<Rightarrow> monitor \<Rightarrow> check_result \<Rightarrow> app_state \<Rightarrow> app_state \<times> outbound list" where
  "runCheckComplete now monitorId mon result s =
     (let previousStatus = map_option ms_status (statuses s monitorId);
          s1 = updateStatus now monitorId result s
      in if previousStatus \<noteq> Some (cr_status result) then
           (if cr_status result = DOWN then
              (case find (\<lambda>a. isActiveFor monitorId a \<and> now - 5000 < al_createdAt a) (alerts s1) of
                 None \<Rightarrow> (s1, [])
               | Some a \<Rightarrow> (s1, sendAlertNotification s1 a (Some mon)))
            else if cr_status result = UP \<and> previousStatus = Some DOWN then
              (case find (isActiveFor monitorId) (alerts s1) of
                 None \<Rightarrow> (s1, [])
               | Some a \<Rightarrow>
                   (let s2 = resolveFoundAlert now monitorId s1
                    in (s2, sendAlertNotification s2 (resolveAlertRecord now a) (Some mon))))
            else (s1, []))
         else (s1, []))"

text \<open>
  \<open>deleteMonitor\<close> of the store: an unknown id changes nothing; a known monitor and
  its Status are removed (and the monitor is taken out of its application's list, which
  is not part of this model).
\<close>

definition deleteMonitor :: "string \<Rightarrow> app_state \<Rightarrow> app_state" where
  "deleteMonitor monitorId s =
     (case monitors s monitorId of
        None \<Rightarrow> s
      | Some _ \<Rightarrow> s\<lparr> monitors := (monitors s)(monitorId := None),
                      statuses := (statuses s)(monitorId := None) \<rparr>)"

text \<open>
  The scheduler's world: the store, the ids that have a running interval timer
  (\<open>monitorIntervals\<close>), the probes that were started and have not resolved yet (each
  with the monitor object its \<open>runCheck\<close> holds), and what was sent.
\<close>

record scheduler =
  store :: app_state
  monitorIntervals :: "string list"
  inFlight :: "(string \<times> monitor) list"
  outbox :: "outbound list"

datatype sched_event =
    TimerFires string
  | CheckRequested string
  | ProbeResolves int string check_result
  | MonitorDelete string

definition stopMonitorInterval :: "string \<Rightarrow> scheduler \<Rightarrow> scheduler" where
  "stopMonitorInterval monitorId w =
     w\<lparr> monitorIntervals := removeAll monitorId (monitorIntervals w) \<rparr>"

definition startMonitorInterval :: "string \<Rightarrow> scheduler \<Rightarrow> scheduler" where
  "startMonitorInterval monitorId w =
     (case monitors (store w) monitorId of
        None \<Rightarrow> w
      | Some m \<Rightarrow>
          if \<not> m_enabled m then w
          else (let w1 = stopMonitorInterval monitorId w
                in w1\<lparr> monitorIntervals := monitorId # monitorIntervals w1 \<rparr>))"

text \<open>The first half of \<open>runCheck\<close>: no monitor, no probe.\<close>

definition runCheckStart :: "string \<Rightarrow> scheduler \<Rightarrow> scheduler" where
  "runCheckStart monitorId w =
     (case monitors (store w) monitorId of
        None \<Rightarrow> w
      | Some m \<Rightarrow> w\<lparr> inFlight := inFlight w @ [(monitorId, m)] \<rparr>)"

fun remove_entry :: "'k \<Rightarrow> ('k \<times> 'v) list \<Rightarrow> ('k \<times> 'v) list" where
  "remove_entry k [] = []"
| "remove_entry k (e # es) = (if fst e = k then es else e # remove_entry k es)"

text \<open>
  One event of the scheduler. A timer fires only while it is registered and then calls
  \<open>runCheck\<close>; \<open>runCheck\<close> is also called directly (the first check of a new
  monitor, a check asked for by a client); a probe resolves only if it was started; the
  \<open>monitor:delete\<close> handler stops the timer and deletes the monitor from the store.
\<close>

definition sched_step :: "sched_event \<Rightarrow> scheduler \<Rightarrow> scheduler" where
  "sched_step ev w =
     (case ev of
        TimerFires monitorId \<Rightarrow>
          if monitorId \<in> set (monitorIntervals w) then runCheckStart monitorId w else w
      | CheckRequested monitorId \<Rightarrow> runCheckStart monitorId w
      | ProbeResolves now monitorId result \<Rightarrow>
          (case map_of (inFlight w) monitorId of
             None \<Rightarrow> w
           | Some mon \<Rightarrow>
               (let res = runCheckComplete now monitorId mon result (store w)
                in w\<lparr> store := fst res,
                      inFlight := remove_entry monitorId (inFlight w),
                      outbox := outbox w @ snd res \<rparr>))
      | MonitorDelete monitorId \<Rightarrow>
          (let w1 = stopMonitorInterval monitorId w
           in w1\<lparr> store := deleteMonitor monitorId (store w1) \<rparr>))"

fun sched_run :: "sched_event list \<Rightarrow> scheduler \<Rightarrow> scheduler" where
  "sched_run [] w = w"
| "sched_run (ev # evs) w = sched_run evs (sched_step ev w)"

text \<open>The scheduler after the demo monitor was created and its timer started.\<close>

definition demoScheduler :: "bool \<Rightarrow> scheduler" where
  "demoScheduler ar = \<lparr> store = demoState ar, monitorIntervals = [''m1''], inFlight = [],
     outbox = [] \<rparr>"

section \<open>The self check of the host's network reachability\<close>

datatype net_kind = Connected | Disconnected

definition NETWORK_NOTIFICATION_COOLDOWN :: int where
  "NETWORK_NOTIFICATION_COOLDOWN = 60000"

text \<open>
  The module variables of the check beside the store, and the calls of
  \<open>sendNetworkStatusNotification\<close> made so far, oldest first, each with its time.
\<close>

record net_checker =
  nc_store :: app_state
  lastNetworkNotificationTime :: int
  lastNetworkNotificationType :: "net_kind option"
  notified :: "(int \<times> net_kind) list"

definition setNetworkStatus :: "int \<Rightarrow> bool \<Rightarrow> app_state \<Rightarrow> app_state" where
  "setNetworkStatus now connected s =
     s\<lparr> networkStatus := \<lparr> isConnected = connected, lastChecked = now,
          lastConnectedAt = (if connected then now else lastConnectedAt (networkStatus s)) \<rparr> \<rparr>"

definition notifyIfAllowed :: "int \<Rightarrow> net_kind \<Rightarrow> net_checker \<Rightarrow> net_checker" where
  "notifyIfAllowed now kind w =
     (if NETWORK_NOTIFICATION_COOLDOWN < now - lastNetworkNotificationTime w
         \<and> lastNetworkNotificationType w \<noteq> Some kind
      then w\<lparr> lastNetworkNotificationTime := now, lastNetworkNotificationType := Some kind,
              notified := notified w @ [(now, kind)] \<rparr>
      else w)"

text \<open>
  \<open>checkNetworkConnectivity\<close>, one tick at time \<open>now\<close>; \<open>reachable\<close> says whether
  the request to the outside resolved (the try block) or failed or timed out (the catch block).
\<close>

definition checkNetworkConnectivity :: "int \<Rightarrow> bool \<Rightarrow> net_checker \<Rightarrow> net_checker" where
  "checkNetworkConnectivity now reachable w =
     (let previousStatus = isConnected (networkStatus (nc_store w));
          s1 = setNetworkStatus now reachable (nc_store w)
      in if reachable then
           (if previousStatus = False then notifyIfAllowed now Connected (w\<lparr> nc_store := s1 \<rparr>)
            else w\<lparr> nc_store := s1 \<rparr>)
         else
           (if previousStatus = True then
              (let s2 = createIncident now ''NETWORK''
                          ''Internet connectivity lost - services may not function properly'' s1;
                   s3 = createAlert now ''NETWORK'' ''connectivity''
                          ''Internet connectivity lost'' ''critical'' s2
               in notifyIfAllowed now Disconnected (w\<lparr> nc_store := s3 \<rparr>))
            else w\<lparr> nc_store := s1 \<rparr>))"

fun net_run :: "(int \<times> bool) list \<Rightarrow> net_checker \<Rightarrow> net_checker" where
  "net_run [] w = w"
| "net_run (t # ts) w = net_run ts (checkNetworkConnectivity (fst t) (snd t) w)"

text \<open>
  The kind of notification a tick can send, and the condition under which
  \<open>checkNetworkConnectivity\<close> sends it: the observed state differs from the stored one,
  more than the cooldown has passed since the last notification, and that one was of the
  other kind.
\<close>

definition kindOf :: "bool \<Rightarrow> net_kind" where
  "kindOf reachable = (if reachable then Connected else Disconnected)"

definition willNotify :: "int \<Rightarrow> bool \<Rightarrow> net_checker \<Rightarrow> bool" where
  "willNotify now reachable w =
     (isConnected (networkStatus (nc_store w)) \<noteq> reachable
      \<and> NETWORK_NOTIFICATION_COOLDOWN < now - lastNetworkNotificationTime w
      \<and> lastNetworkNotificationType w \<noteq> Some (kindOf reachable))"

text \<open>Two notifications, the second more than the cooldown after the first.\<close>

definition cooldownGap :: "(int \<times> net_kind) \<Rightarrow> (int \<times> net_kind) \<Rightarrow> bool" where
  "cooldownGap a b = (NETWORK_NOTIFICATION_COOLDOWN < fst b - fst a)"

text \<open>
  What every tick keeps true of the module variables and the notifications sent: the
  notifications are pairwise more than the cooldown apart, none is later than
  \<open>lastNetworkNotificationTime\<close>, \<open>lastNetworkNotificationType\<close> is the kind of the
  last one, and no two in a row are of the same kind.
\<close>

definition logInv :: "net_checker \<Rightarrow> bool" where
  "logInv w =
     (sorted_wrt cooldownGap (notified w)
      \<and> list_all (\<lambda>n. fst n \<le> lastNetworkNotificationTime w) (notified w)
      \<and> lastNetworkNotificationType w
          = (if notified w = [] then None else Some (snd (last (notified w))))
      \<and> distinct_adj (map snd (notified w)))"

text \<open>The checker as the module is loaded: no notification sent yet.\<close>

definition initialNetChecker :: "app_state \<Rightarrow> net_checker" where
  "initialNetChecker s = \<lparr> nc_store = s, lastNetworkNotificationTime = 0,
     lastNetworkNotificationType = None, notified = [] \<rparr>"

section \<open>The HTTP probe (monitors/monitorEngine.js)\<close>

text \<open>
  A JSON value, as \<open>JSON.parse\<close> gives it (numbers: the integers).
\<close>

datatype json =
    JNull
  | JBool bool
  | JNum int
  | JStr string
  | JArr "json list"
  | JObj "(string \<times> json) list"

text \<open>
  What the network gives back to \<open>checkHttp\<close>: the request fails (axios throws; the
  text is \<open>error.code || error.message\<close>) or a response arrives: its status code,
  the text of its body, and the value \<open>JSON.parse\<close> gives for that text (none when the
  body is empty or is not JSON text; \<open>JSON.parse\<close> itself is not code of the
  repository). \<open>validateStatus: () => true\<close> makes every status code a response,
  never an error.
\<close>

datatype http_outcome = RequestFailed string | Response nat string "json option"

text \<open>What the TLS connection of \<open>getSSLInfo\<close> gives: an error or a timeout, or a
  connection with or without a certificate that has a \<open>valid_to\<close>.\<close>

record peer_cert =
  pc_issuer :: string
  pc_valid_from :: string
  pc_valid_to :: string
  pc_valid_to_ms :: int
  pc_subject :: string

datatype tls_outcome = TlsFailed | TlsConnected "peer_cert option"

definition getSSLInfo :: "int \<Rightarrow> tls_outcome \<Rightarrow> ssl_info option" where
  "getSSLInfo now tls =
     (case tls of
        TlsFailed \<Rightarrow> None
      | TlsConnected None \<Rightarrow> None
      | TlsConnected (Some cert) \<Rightarrow>
          Some \<lparr> issuer = pc_issuer cert, validFrom = pc_valid_from cert,
                 validTo = pc_valid_to cert,
                 daysRemaining = (pc_valid_to_ms cert - now) div (1000 * 60 * 60 * 24),
                 subject = pc_subject cert \<rparr>)"

text \<open>\<open>monitor.expectedStatus || 200\<close>, then the first element of an array, again
  with 200 for a missing or zero one.\<close>

definition effectiveExpectedStatus :: "expected_status \<Rightarrow> nat" where
  "effectiveExpectedStatus e =
     (case e of
        NoExpected \<Rightarrow> 200
      | Code n \<Rightarrow> if n = 0 then 200 else n
      | Codes [] \<Rightarrow> 200
      | Codes (n # _) \<Rightarrow> if n = 0 then 200 else n)"

text \<open>A status code in a template string: its decimal digits.\<close>

fun showNat :: "nat \<Rightarrow> string" where
  "showNat n = (if n < 10 then [''0123456789'' ! n]
                else showNat (n div 10) @ [''0123456789'' ! (n mod 10)])"

definition startsWithHttps :: "string option \<Rightarrow> bool" where
  "startsWithHttps u = (case u of None \<Rightarrow> False | Some url \<Rightarrow> prefix ''https://'' url)"

text \<open>\<open>toString\<close> of a number.\<close>

definition showInt :: "int \<Rightarrow> string" where
  "showInt n = (if n < 0 then ''-'' @ showNat (nat (- n)) else showNat (nat n))"

fun joinComma :: "string list \<Rightarrow> string" where
  "joinComma [] = []"
| "joinComma [x] = x"
| "joinComma (x # y # ys) = x @ '','' @ joinComma (y # ys)"

text \<open>
  \<open>toString()\<close> of a parsed value: a string is itself, a number its digits, an array
  its elements joined by commas (null as the empty text), and every object the text
  \<open>[object Object]\<close>, whatever it holds.
\<close>

fun jsToString :: "json \<Rightarrow> string" where
  "jsToString JNull = []"
| "jsToString (JBool b) = (if b then ''true'' else ''false'')"
| "jsToString (JNum n) = showInt n"
| "jsToString (JStr s) = s"
| "jsToString (JArr xs) = joinComma (map jsToString xs)"
| "jsToString (JObj members) = ''[object Object]''"

text \<open>
  \<open>response.data?.toString()\<close>. \<open>checkHttp\<close> gives axios no \<open>responseType\<close>
  and no \<open>transformResponse\<close>, so axios puts the parsed value in \<open>response.data\<close>
  when the body is JSON text, and the body text itself otherwise. With the data null the
  optional chain gives undefined.
\<close>

definition responseDataText :: "string \<Rightarrow> json option \<Rightarrow> string option" where
  "responseDataText body parsed =
     (case parsed of
        None \<Rightarrow> Some body
      | Some JNull \<Rightarrow> None
      | Some j \<Rightarrow> Some (jsToString j))"

text \<open>
  \<open>response.data?.toString().includes(expectedContent)\<close>: undefined counts as false;
  otherwise the expected text occurs in the text of the data.
\<close>

definition dataIncludes :: "string option \<Rightarrow> string \<Rightarrow> bool" where
  "dataIncludes dataText expectedContent =
     (case dataText of None \<Rightarrow> False | Some d \<Rightarrow> sublist expectedContent d)"

text \<open>\<open>contentOk\<close> stays true unless an expected content is set and the status matched.\<close>

definition contentOkOf :: "monitor \<Rightarrow> bool \<Rightarrow> string option \<Rightarrow> bool" where
  "contentOkOf mon statusOk dataText =
     (case m_expectedContent mon of
        None \<Rightarrow> True
      | Some expectedContent \<Rightarrow>
          if expectedContent \<noteq> [] \<and> statusOk then dataIncludes dataText expectedContent
          else True)"

text \<open>
  \<open>checkHttp\<close>: \<open>elapsed\<close> is \<open>Date.now() - startTime\<close>, \<open>now\<close> the clock
  when the certificate is read.
\<close>

definition checkHttp :: "monitor \<Rightarrow> http_outcome \<Rightarrow> tls_outcome \<Rightarrow> int \<Rightarrow> int \<Rightarrow> check_result" where
  "checkHttp mon outcome tls elapsed now =
     (case outcome of
        RequestFailed msg \<Rightarrow>
          \<lparr> cr_status = DOWN, cr_responseTime = elapsed, cr_message = msg,
            cr_statusCode = None, cr_sslInfo = None \<rparr>
      | Response code body parsed \<Rightarrow>
          (let statusOk = (code = effectiveExpectedStatus (m_expectedStatus mon));
               contentOk = contentOkOf mon statusOk (responseDataText body parsed);
               isUp = (statusOk \<and> contentOk);
               sslInfo = (if startsWithHttps (m_url mon) then getSSLInfo now tls else None)
           in \<lparr> cr_status = (if isUp then UP else DOWN),
                cr_responseTime = elapsed,
                cr_message = (if isUp then ''HTTP '' @ showNat code @ '' OK''
                              else ''HTTP '' @ showNat code
                                   @ (if \<not> contentOk then '' (content mismatch)'' else [])),
                cr_statusCode = Some code,
                cr_sslInfo = sslInfo \<rparr>))"

text \<open>
  A monitor of a health page that must answer 200 with the text healthy, the page's
  certificate, and an answer in JSON: the body text and the value \<open>JSON.parse\<close>
  gives for it, an object with the one member status.
\<close>

definition healthMonitor :: monitor where
  "healthMonitor = demoMonitor\<lparr> m_expectedContent := Some ''healthy'' \<rparr>"

definition demoCert :: peer_cert where
  "demoCert = \<lparr> pc_issuer = ''Example CA'', pc_valid_from = ''Jan  1 00:00:00 2026 GMT'',
     pc_valid_to = ''Jan  1 00:00:00 2027 GMT'', pc_valid_to_ms = 30 * 86400000 + 5000,
     pc_subject = ''example.org'' \<rparr>"

definition jsonBody :: string where
  "jsonBody = ''{\"status\":\"healthy\"}''"

definition jsonValue :: json where
  "jsonValue = JObj [(''status'', JStr ''healthy'')]"

section \<open>Basic facts about the state machine\<close>

lemma createAlert_fields:
  "statuses (createAlert now m ty msg sev s) = statuses s"
  "incidents (createAlert now m ty msg sev s) = incidents s"
  "settings (createAlert now m ty msg sev s) = settings s"
  "monitors (createAlert now m ty msg sev s) = monitors s"
  by (simp_all add: createAlert_def)

lemma createIncident_fields:
  "statuses (createIncident now m msg s) = statuses s"
  "settings (createIncident now m msg s) = settings s"
  "monitors (createIncident now m msg s) = monitors s"
  by (simp_all add: createIncident_def createAlert_def)

lemma resolveIncidentForMonitor_fields:
  "statuses (resolveIncidentForMonitor now m s) = statuses s"
  "settings (resolveIncidentForMonitor now m s) = settings s"
  "monitors (resolveIncidentForMonitor now m s) = monitors s"
  by (simp_all add: resolveIncidentForMonitor_def split: option.splits)

lemma updateStatus_statuses:
  "statuses (updateStatus now m r s) =
     (statuses s)(m \<mapsto> newStatusOf now (currentStatusOf s m) r)"
  by (simp add: updateStatus_def Let_def createIncident_fields
      resolveIncidentForMonitor_fields split: option.splits)

lemma updateStatus_settings: "settings (updateStatus now m r s) = settings s"
  by (simp add: updateStatus_def Let_def createIncident_fields
      resolveIncidentForMonitor_fields split: option.splits)

lemma feed_settings: "settings (feed m rs s) = settings s"
  by (induction rs arbitrary: s) (simp_all add: updateStatus_settings)

lemma feed_append: "feed m (xs @ ys) s = feed m ys (feed m xs s)"
  by (induction xs arbitrary: s) simp_all

lemma find_None_filter: "(find P xs = None) = (filter P xs = [])"
  by (induction xs) auto

lemma createIncident_incidents:
  "incidents (createIncident now m msg s) = newIncident now m msg s # incidents s"
  by (simp add: createIncident_def createAlert_def)

lemma createIncident_alerts:
  "alerts (createIncident now m msg s) =
     newAlert now m ''incident'' msg ''critical''
       (s\<lparr> incidents := newIncident now m msg s # incidents s, nextId := nextId s + 1 \<rparr>) # alerts s"
  by (simp add: createIncident_def createAlert_def)

lemma newIncident_fields:
  "inc_monitorId (newIncident now m msg s) = m"
  "inc_status (newIncident now m msg s) = Ongoing"
  "inc_message (newIncident now m msg s) = msg"
  "inc_startedAt (newIncident now m msg s) = now"
  "inc_id (newIncident now m msg s) = nextId s"
  by (simp_all add: newIncident_def)

lemma newAlert_fields:
  "al_monitorId (newAlert now m ty msg sev s) = m"
  "al_status (newAlert now m ty msg sev s) = Active"
  "al_severity (newAlert now m ty msg sev s) = sev"
  "al_type (newAlert now m ty msg sev s) = ty"
  "al_message (newAlert now m ty msg sev s) = msg"
  "al_createdAt (newAlert now m ty msg sev s) = now"
  "al_id (newAlert now m ty msg sev s) = nextId s"
  by (simp_all add: newAlert_def)

text \<open>The branches of \<open>updateStatus\<close>, one lemma per pair of previous and new status.\<close>

lemma updateStatus_up_down:
  "ms_status (currentStatusOf s m) = UP \<Longrightarrow> cr_status r = DOWN \<Longrightarrow>
   updateStatus now m r s = createIncident now m (cr_message r)
      (s\<lparr> statuses := (statuses s)(m \<mapsto> newStatusOf now (currentStatusOf s m) r) \<rparr>)"
  by (simp add: updateStatus_def Let_def)

lemma updateStatus_pending:
  "ms_status (currentStatusOf s m) = PENDING \<Longrightarrow>
   updateStatus now m r s =
     s\<lparr> statuses := (statuses s)(m \<mapsto> newStatusOf now (currentStatusOf s m) r) \<rparr>"
  by (simp add: updateStatus_def Let_def)

lemma updateStatus_down_down:
  "ms_status (currentStatusOf s m) = DOWN \<Longrightarrow> cr_status r = DOWN \<Longrightarrow>
   updateStatus now m r s =
     (let s1 = s\<lparr> statuses := (statuses s)(m \<mapsto> newStatusOf now (currentStatusOf s m) r) \<rparr>
      in if consecutiveFailuresThreshold (settings s) \<le> consecutiveFailures (currentStatusOf s m) + 1
            \<and> find (isOngoingFor m) (incidents s) = None
         then createIncident now m (cr_message r) s1 else s1)"
  by (simp add: updateStatus_def Let_def newStatusOf_def split: option.splits)

lemma updateStatus_down_up:
  "ms_status (currentStatusOf s m) = DOWN \<Longrightarrow> cr_status r = UP \<Longrightarrow>
   updateStatus now m r s =
     (let s1 = s\<lparr> statuses := (statuses s)(m \<mapsto> newStatusOf now (currentStatusOf s m) r) \<rparr>
      in if autoResolve (settings s) then resolveIncidentForMonitor now m s1 else s1)"
  by (simp add: updateStatus_def Let_def)

lemma updateStatus_up_up:
  "ms_status (currentStatusOf s m) = UP \<Longrightarrow> cr_status r \<noteq> DOWN \<Longrightarrow>
   updateStatus now m r s =
     s\<lparr> statuses := (statuses s)(m \<mapsto> newStatusOf now (currentStatusOf s m) r) \<rparr>"
  by (simp add: updateStatus_def Let_def)

lemma status_after_updateStatus:
  "ms_status (currentStatusOf (updateStatus now m r s) m) = cr_status r"
  by (simp add: currentStatusOf_def updateStatus_statuses newStatusOf_def Let_def)

lemma counter_after_updateStatus:
  "consecutiveFailures (currentStatusOf (updateStatus now m r s) m) =
     (if cr_status r = UP then 0 else consecutiveFailures (currentStatusOf s m) + 1)"
  by (simp add: currentStatusOf_def updateStatus_statuses newStatusOf_def Let_def)

lemma failureCount_updateStatus:
  "failureCount (updateStatus now m r s) m =
     Some (if cr_status r = UP then 0 else consecutiveFailures (currentStatusOf s m) + 1)"
  by (simp add: failureCount_def updateStatus_statuses newStatusOf_def Let_def)

lemma counter_after_feed:
  "consecutiveFailures (currentStatusOf (feed m rs s) m) =
     (if \<exists>x\<in>set rs. cr_status (snd x) = UP then 0 else consecutiveFailures (currentStatusOf s m))
       + length (takeWhile (\<lambda>x. cr_status (snd x) \<noteq> UP) (rev rs))"
proof (induction rs rule: rev_induct)
  case Nil
  then show ?case by simp
next
  case (snoc x xs)
  show ?case
    by (simp add: feed_append counter_after_updateStatus snoc)
qed

lemma takeWhile_not_up:
  assumes "\<forall>x\<in>set rs. cr_status (snd x) = UP \<or> cr_status (snd x) = DOWN"
  shows "takeWhile (\<lambda>x. cr_status (snd x) \<noteq> UP) rs = takeWhile (\<lambda>x. cr_status (snd x) = DOWN) rs"
  using assms by (intro takeWhile_cong) auto

subsection \<open>A run of DOWN samples on a new monitor\<close>

lemma downRun_step:
  assumes inv: "downRun m k s s'" and d: "cr_status r = DOWN"
  shows "downRun m (Suc k) s (updateStatus now m r s')"
proof (cases "k = 0")
  case True
  with inv have p: "ms_status (currentStatusOf s' m) = PENDING"
    by (simp add: downRun_def)
  show ?thesis
    using inv True d
    by (simp add: downRun_def updateStatus_pending [OF p] currentStatusOf_def newStatusOf_def
        incidentsOf_def alertsOf_def ongoingIncidentsOf_def)
next
  case False
  with inv have p: "ms_status (currentStatusOf s' m) = DOWN"
    by (simp add: downRun_def)
  have none: "(find (isOngoingFor m) (incidents s') = None) = (incidentsOf s' m = [])"
    using inv by (simp add: find_None_filter downRun_def ongoingIncidentsOf_def)
  show ?thesis
    using inv False d
    unfolding updateStatus_down_down [OF p d] none
    by (auto simp add: downRun_def Let_def currentStatusOf_def newStatusOf_def
        incidentsOf_def alertsOf_def ongoingIncidentsOf_def createIncident_incidents
        createIncident_alerts createIncident_fields newIncident_fields newAlert_fields
        isOngoingFor_def max_def split: if_splits)
qed

lemma downRun_feed:
  assumes "downRun m 0 s s" and "\<forall>x\<in>set rs. cr_status (snd x) = DOWN"
  shows "downRun m (length rs) s (feed m rs s)"
  using assms(2)
proof (induction rs rule: rev_induct)
  case Nil
  then show ?case using assms(1) by simp
next
  case (snoc x xs)
  then show ?case by (simp add: feed_append downRun_step)
qed

lemmas demo_defs = demoState_def demoMonitor_def createInitialState_def initialSettings_def
  initialStatus_def sample_def

lemmas sched_defs = sched_step_def runCheckStart_def runCheckComplete_def stopMonitorInterval_def
  deleteMonitor_def resolveFoundAlert_def demoScheduler_def

lemmas notify_defs = sendAlertNotification_def getRecipientsForAlert_def recipientMapOf_def
  speak_def sendEmail_def sendSmsBatch_def sendSms_def phonesOf_def truthy_def

lemmas machine_defs = updateStatus_def currentStatusOf_def newStatusOf_def createIncident_def
  createAlert_def newIncident_def newAlert_def resolveIncidentForMonitor_def
  resolveIncidentRecord_def resolveAlertRecord_def monitorNameOrUnknown_def
  isOngoingFor_def isActiveFor_def Let_def

section \<open>The failure counter\<close>

text \<open>
  Claim C2. For every sequence of check results fed to one monitor through
  \<open>updateStatus\<close>, the stored \<open>consecutiveFailures\<close> is the number of consecutive
  DOWN samples since the last UP sample: an UP sample sets it to 0, a DOWN sample to the
  previous count plus one; after a sequence of UP and DOWN samples it is the count of the
  DOWN samples since the last UP one (added to the count before the sequence when no
  sample of it is UP; that count is 0 for a new monitor).
\<close>

theorem consecutiveFailures_counts_downs_since_last_up:
  "(cr_status r = UP \<longrightarrow> failureCount (updateStatus now m r s) m = Some 0)
   \<and> (cr_status r = DOWN \<longrightarrow>
        failureCount (updateStatus now m r s) m
          = Some (consecutiveFailures (currentStatusOf s m) + 1))
   \<and> ((\<forall>x\<in>set rs. cr_status (snd x) = UP \<or> cr_status (snd x) = DOWN) \<longrightarrow>
        consecutiveFailures (currentStatusOf (feed m rs s) m)
          = (if \<exists>x\<in>set rs. cr_status (snd x) = UP then 0
             else consecutiveFailures (currentStatusOf s m))
            + downsSinceLastUp rs)"
proof (intro conjI impI)
  assume "cr_status r = UP"
  then show "failureCount (updateStatus now m r s) m = Some 0"
    by (simp add: failureCount_updateStatus)
next
  assume "cr_status r = DOWN"
  then show "failureCount (updateStatus now m r s) m
      = Some (consecutiveFailures (currentStatusOf s m) + 1)"
    by (simp add: failureCount_updateStatus)
next
  assume a: "\<forall>x\<in>set rs. cr_status (snd x) = UP \<or> cr_status (snd x) = DOWN"
  then have "\<forall>x\<in>set (rev rs). cr_status (snd x) = UP \<or> cr_status (snd x) = DOWN"
    by simp
  then have "takeWhile (\<lambda>x. cr_status (snd x) \<noteq> UP) (rev rs)
      = takeWhile (\<lambda>x. cr_status (snd x) = DOWN) (rev rs)"
    by (rule takeWhile_not_up)
  then show "consecutiveFailures (currentStatusOf (feed m rs s) m)
      = (if \<exists>x\<in>set rs. cr_status (snd x) = UP then 0
         else consecutiveFailures (currentStatusOf s m))
        + downsSinceLastUp rs"
    by (simp add: counter_after_feed downsSinceLastUp_def)
qed

theorem consecutiveFailures_counts_downs_since_last_up_witness:
  "failureCount (updateStatus 5 ''m1'' (sample UP ''ok'') (demoState True)) ''m1'' = Some 0
   \<and> failureCount (updateStatus 5 ''m1'' (sample DOWN ''refused'') (demoState True)) ''m1'' = Some 1
   \<and> consecutiveFailures (currentStatusOf
        (feed ''m1'' [(1, sample DOWN ''e''), (2, sample UP ''ok''), (3, sample DOWN ''e''),
                      (4, sample DOWN ''e'')] (demoState True)) ''m1'') = 2"
  using consecutiveFailures_counts_downs_since_last_up
    [of "sample UP ''ok''" 5 "''m1''" "demoState True"
        "[(1, sample DOWN ''e''), (2, sample UP ''ok''), (3, sample DOWN ''e''),
          (4, sample DOWN ''e'')]"]
    consecutiveFailures_counts_downs_since_last_up
    [of "sample DOWN ''refused''" 5 "''m1''" "demoState True" "[]"]
  by (simp add: sample_def downsSinceLastUp_def currentStatusOf_def demoState_def
      initialStatus_def)

section \<open>Opening incidents\<close>

text \<open>
  Claim C3. Whenever \<open>updateStatus\<close> processes a DOWN sample for a monitor whose
  previous status was UP, exactly one new incident with status ongoing and exactly one
  new alert for it, with severity critical and status active, are created for that
  monitor, whatever the configured consecutive-failure threshold is.
\<close>

theorem up_to_down_opens_one_incident_and_one_alert:
  assumes "ms_status (currentStatusOf s m) = UP" and "cr_status r = DOWN"
  shows "\<exists>i a.
      incidents (updateStatus now m r
        (s\<lparr> settings := (settings s)\<lparr> consecutiveFailuresThreshold := thr \<rparr> \<rparr>)) = i # incidents s
      \<and> alerts (updateStatus now m r
        (s\<lparr> settings := (settings s)\<lparr> consecutiveFailuresThreshold := thr \<rparr> \<rparr>)) = a # alerts s
      \<and> inc_monitorId i = m \<and> inc_status i = Ongoing \<and> inc_message i = cr_message r
      \<and> al_monitorId a = m \<and> al_severity a = ''critical'' \<and> al_status a = Active
      \<and> al_type a = ''incident'' \<and> al_message a = cr_message r"
proof -
  let ?s = "s\<lparr> settings := (settings s)\<lparr> consecutiveFailuresThreshold := thr \<rparr> \<rparr>"
  have prev: "ms_status (currentStatusOf ?s m) = UP"
    using assms(1) by (simp add: currentStatusOf_def)
  show ?thesis
    by (simp add: updateStatus_up_down [OF prev assms(2)] createIncident_incidents
        createIncident_alerts newIncident_fields newAlert_fields)
qed

text \<open>The store of the witness: the monitor was checked once and is UP; threshold 5.\<close>

theorem up_to_down_opens_one_incident_and_one_alert_witness:
  "\<exists>i a.
      incidents (updateStatus 2000 ''m1'' (sample DOWN ''refused'')
        ((updateStatus 1000 ''m1'' (sample UP ''ok'') (demoState True))
           \<lparr> settings := (settings (updateStatus 1000 ''m1'' (sample UP ''ok'') (demoState True)))
                \<lparr> consecutiveFailuresThreshold := 5 \<rparr> \<rparr>)) = [i]
      \<and> alerts (updateStatus 2000 ''m1'' (sample DOWN ''refused'')
        ((updateStatus 1000 ''m1'' (sample UP ''ok'') (demoState True))
           \<lparr> settings := (settings (updateStatus 1000 ''m1'' (sample UP ''ok'') (demoState True)))
                \<lparr> consecutiveFailuresThreshold := 5 \<rparr> \<rparr>)) = [a]
      \<and> inc_status i = Ongoing \<and> al_severity a = ''critical'' \<and> al_status a = Active"
proof -
  let ?s = "updateStatus 1000 ''m1'' (sample UP ''ok'') (demoState True)"
  have up: "ms_status (currentStatusOf ?s ''m1'') = UP"
    by (simp add: status_after_updateStatus sample_def)
  have down: "cr_status (sample DOWN ''refused'') = DOWN"
    by (simp add: sample_def)
  have none: "incidents ?s = [] \<and> alerts ?s = []"
    by (simp add: demo_defs machine_defs)
  from up_to_down_opens_one_incident_and_one_alert [OF up down, of 2000 5] none
  show ?thesis by auto
qed

text \<open>
  Claim C10. A new monitor has status PENDING. Its first DOWN sample opens no incident
  and no alert: the first-failure rule fires on a step from UP to DOWN only. A monitor
  that is DOWN from its first check on gets its first incident, and its alert, on the
  later step from DOWN to DOWN at which the failure counter has reached the configured
  threshold, that is at DOWN sample number \<open>max 2 threshold\<close>, and no second one after it
  while that incident is ongoing.
\<close>

theorem pending_monitor_first_incident_at_threshold:
  assumes "statuses s m = Some initialStatus"
    and "incidentsOf s m = []" and "alertsOf s m = []"
    and "cr_status r = DOWN"
    and "\<forall>x\<in>set rs. cr_status (snd x) = DOWN"
  shows "incidents (updateStatus now m r s) = incidents s
      \<and> alerts (updateStatus now m r s) = alerts s
      \<and> length (incidentsOf (feed m rs s) m)
          = (if max 2 (consecutiveFailuresThreshold (settings s)) \<le> length rs then 1 else 0)
      \<and> length (alertsOf (feed m rs s) m)
          = (if max 2 (consecutiveFailuresThreshold (settings s)) \<le> length rs then 1 else 0)
      \<and> ongoingIncidentsOf (feed m rs s) m = incidentsOf (feed m rs s) m"
proof -
  have p: "ms_status (currentStatusOf s m) = PENDING"
    using assms(1) by (simp add: currentStatusOf_def initialStatus_def)
  have first: "incidents (updateStatus now m r s) = incidents s
      \<and> alerts (updateStatus now m r s) = alerts s"
    by (simp add: updateStatus_pending [OF p])
  have "downRun m 0 s s"
    using assms(1-3)
    by (auto simp add: downRun_def currentStatusOf_def initialStatus_def ongoingIncidentsOf_def
        incidentsOf_def alertsOf_def isOngoingFor_def filter_empty_conv)
  then have "downRun m (length rs) s (feed m rs s)"
    using assms(5) by (rule downRun_feed)
  with first show ?thesis
    by (simp add: downRun_def)
qed

theorem pending_monitor_first_incident_at_threshold_witness:
  "incidents (updateStatus 1000 ''m1'' (sample DOWN ''refused'') (demoState True)) = []
   \<and> alerts (updateStatus 1000 ''m1'' (sample DOWN ''refused'') (demoState True)) = []
   \<and> length (incidentsOf (feed ''m1'' [(1000, sample DOWN ''e1''), (2000, sample DOWN ''e2''),
        (3000, sample DOWN ''e3''), (4000, sample DOWN ''e4'')] (demoState True)) ''m1'') = 1
   \<and> length (alertsOf (feed ''m1'' [(1000, sample DOWN ''e1''), (2000, sample DOWN ''e2''),
        (3000, sample DOWN ''e3''), (4000, sample DOWN ''e4'')] (demoState True)) ''m1'') = 1"
proof -
  have a: "statuses (demoState True) ''m1'' = Some initialStatus"
    "incidentsOf (demoState True) ''m1'' = []" "alertsOf (demoState True) ''m1'' = []"
    "cr_status (sample DOWN ''refused'') = DOWN"
    "\<forall>x\<in>set [(1000, sample DOWN ''e1''), (2000, sample DOWN ''e2''),
        (3000, sample DOWN ''e3''), (4000::int, sample DOWN ''e4'')]. cr_status (snd x) = DOWN"
    by (simp_all add: demoState_def createInitialState_def incidentsOf_def alertsOf_def sample_def)
  have thr: "consecutiveFailuresThreshold (settings (demoState True)) = 3"
    "incidents (demoState True) = []" "alerts (demoState True) = []"
    by (simp_all add: demoState_def initialSettings_def createInitialState_def)
  from pending_monitor_first_incident_at_threshold [OF a, of 1000] thr
  show ?thesis by simp
qed

section \<open>The self check: notifications and the cooldown\<close>

lemma check_notified:
  "notified (checkNetworkConnectivity now r w) =
     notified w @ (if willNotify now r w then [(now, kindOf r)] else [])"
  by (simp add: checkNetworkConnectivity_def Let_def notifyIfAllowed_def willNotify_def kindOf_def)

lemma check_vars:
  "lastNetworkNotificationTime (checkNetworkConnectivity now r w) =
     (if willNotify now r w then now else lastNetworkNotificationTime w)"
  "lastNetworkNotificationType (checkNetworkConnectivity now r w) =
     (if willNotify now r w then Some (kindOf r) else lastNetworkNotificationType w)"
  by (simp_all add: checkNetworkConnectivity_def Let_def notifyIfAllowed_def willNotify_def
      kindOf_def)

lemma check_connected:
  "isConnected (networkStatus (nc_store (checkNetworkConnectivity now r w))) = r"
  by (simp add: checkNetworkConnectivity_def Let_def notifyIfAllowed_def setNetworkStatus_def
      createIncident_def createAlert_def)

lemma logInv_step:
  assumes "logInv w"
  shows "logInv (checkNetworkConnectivity now r w)"
proof (cases "willNotify now r w")
  case False
  then have "notified (checkNetworkConnectivity now r w) = notified w"
    "lastNetworkNotificationTime (checkNetworkConnectivity now r w) = lastNetworkNotificationTime w"
    "lastNetworkNotificationType (checkNetworkConnectivity now r w) = lastNetworkNotificationType w"
    by (simp_all add: check_notified check_vars)
  with assms show ?thesis
    by (simp only: logInv_def)
next
  case True
  have c: "0 < NETWORK_NOTIFICATION_COOLDOWN"
    by (simp add: NETWORK_NOTIFICATION_COOLDOWN_def)
  from assms have s: "sorted_wrt cooldownGap (notified w)"
    and b: "list_all (\<lambda>n. fst n \<le> lastNetworkNotificationTime w) (notified w)"
    and k: "lastNetworkNotificationType w
          = (if notified w = [] then None else Some (snd (last (notified w))))"
    and d: "distinct_adj (map snd (notified w))"
    by (simp_all add: logInv_def)
  let ?n = "(now, kindOf r)"
  have g: "\<forall>x\<in>set (notified w). cooldownGap x ?n"
    using b True by (auto simp add: list_all_iff cooldownGap_def willNotify_def)
  have s': "sorted_wrt cooldownGap (notified w @ [?n])"
    using s g by (simp add: sorted_wrt_append)
  have b': "list_all (\<lambda>n. fst n \<le> now) (notified w @ [?n])"
    using b True c by (auto simp add: list_all_iff willNotify_def)
  have d': "distinct_adj (map snd (notified w @ [?n]))"
    using d k True
    by (cases "notified w = []") (auto simp add: distinct_adj_append_iff last_map willNotify_def)
  from True have "notified (checkNetworkConnectivity now r w) = notified w @ [?n]"
    "lastNetworkNotificationTime (checkNetworkConnectivity now r w) = now"
    "lastNetworkNotificationType (checkNetworkConnectivity now r w) = Some (snd ?n)"
    by (simp_all add: check_notified check_vars)
  with s' b' d' show ?thesis
    by (simp add: logInv_def)
qed

lemma logInv_run: "logInv w \<Longrightarrow> logInv (net_run ts w)"
  by (induction ts arbitrary: w) (simp_all add: logInv_step)

lemma logInv_initial: "logInv (initialNetChecker s)"
  by (simp add: logInv_def initialNetChecker_def)

lemma quiet_run:
  assumes "\<forall>t\<in>set ts. fst t - lastNetworkNotificationTime w \<le> NETWORK_NOTIFICATION_COOLDOWN"
  shows "notified (net_run ts w) = notified w
     \<and> lastNetworkNotificationTime (net_run ts w) = lastNetworkNotificationTime w"
  using assms
proof (induction ts arbitrary: w)
  case Nil
  then show ?case by simp
next
  case (Cons t ts)
  let ?w = "checkNetworkConnectivity (fst t) (snd t) w"
  from Cons.prems
  have q: "\<not> NETWORK_NOTIFICATION_COOLDOWN < fst t - lastNetworkNotificationTime w"
    by simp
  have same: "notified ?w = notified w"
    "lastNetworkNotificationTime ?w = lastNetworkNotificationTime w"
    using q by (simp_all add: check_notified check_vars willNotify_def)
  with Cons.prems
  have "\<forall>t\<in>set ts. fst t - lastNetworkNotificationTime ?w \<le> NETWORK_NOTIFICATION_COOLDOWN"
    by simp
  from Cons.IH [OF this] same show ?case by simp
qed

text \<open>
  Notifications that are pairwise more than the cooldown apart: at most one of them
  falls into any window of the cooldown's length.
\<close>

lemma at_most_one_in_window:
  assumes "sorted_wrt cooldownGap xs"
  shows "length (filter (\<lambda>n. a \<le> fst n \<and> fst n \<le> a + NETWORK_NOTIFICATION_COOLDOWN) xs) \<le> 1"
proof -
  let ?ys = "filter (\<lambda>n. a \<le> fst n \<and> fst n \<le> a + NETWORK_NOTIFICATION_COOLDOWN) xs"
  have s: "sorted_wrt cooldownGap ?ys"
    using assms by (rule sorted_wrt_filter)
  have inwin: "\<forall>n\<in>set ?ys. a \<le> fst n \<and> fst n \<le> a + NETWORK_NOTIFICATION_COOLDOWN"
    by simp
  show ?thesis
  proof (cases ?ys)
    case Nil
    then show ?thesis by simp
  next
    case (Cons x zs)
    show ?thesis
    proof (cases zs)
      case Nil
      with Cons show ?thesis by simp
    next
      case (Cons y us)
      with \<open>?ys = x # zs\<close> have eq: "?ys = x # y # us" by simp
      with s have "cooldownGap x y" by simp
      moreover from inwin eq
      have "a \<le> fst x" and "fst y \<le> a + NETWORK_NOTIFICATION_COOLDOWN"
        by simp_all
      ultimately have False by (simp add: cooldownGap_def)
      then show ?thesis ..
    qed
  qed
qed

text \<open>
  Claim C5, as amended. In the self check of the network reachability a notification
  is sent only on an observed transition (connected to disconnected, or back): a tick
  that observes the state already stored sends none, so a repeated still-disconnected
  tick never notifies again. No two notifications of the same kind are sent within the
  cooldown window: from the start of the process on, any two notifications are more than
  the cooldown apart (so any two of the same kind are), no two in a row are of the same
  kind, and at most one notification falls into any window of the cooldown's length. So
  two disconnect events within the window give at most one notification; they give
  exactly one when the first of them is itself sent, that is when more than the cooldown
  has passed since the last notification and that one was not a disconnect notification:
  then every tick up to the end of the window sends nothing.
\<close>

theorem network_notifications_only_on_transitions_with_cooldown:
  "(isConnected (networkStatus (nc_store w)) = reachable \<longrightarrow>
      notified (checkNetworkConnectivity now reachable w) = notified w)
   \<and> (notified (checkNetworkConnectivity now reachable w) = notified w
       \<or> notified (checkNetworkConnectivity now reachable w) = notified w @ [(now, kindOf reachable)])
   \<and> sorted_wrt cooldownGap (notified (net_run ts (initialNetChecker s)))
   \<and> distinct_adj (map snd (notified (net_run ts (initialNetChecker s))))
   \<and> (\<forall>i j. i < j \<and> j < length (notified (net_run ts (initialNetChecker s)))
          \<and> snd (notified (net_run ts (initialNetChecker s)) ! i)
              = snd (notified (net_run ts (initialNetChecker s)) ! j) \<longrightarrow>
        NETWORK_NOTIFICATION_COOLDOWN
          < fst (notified (net_run ts (initialNetChecker s)) ! j)
            - fst (notified (net_run ts (initialNetChecker s)) ! i))
   \<and> length (filter (\<lambda>n. a \<le> fst n \<and> fst n \<le> a + NETWORK_NOTIFICATION_COOLDOWN)
        (notified (net_run ts (initialNetChecker s)))) \<le> 1
   \<and> (isConnected (networkStatus (nc_store w))
       \<and> NETWORK_NOTIFICATION_COOLDOWN < t0 - lastNetworkNotificationTime w
       \<and> lastNetworkNotificationType w \<noteq> Some Disconnected
       \<and> (\<forall>t\<in>set ts. fst t - t0 \<le> NETWORK_NOTIFICATION_COOLDOWN) \<longrightarrow>
       notified (net_run ((t0, False) # ts) w) = notified w @ [(t0, Disconnected)])"
proof (intro conjI impI)
  assume "isConnected (networkStatus (nc_store w)) = reachable"
  then show "notified (checkNetworkConnectivity now reachable w) = notified w"
    by (simp add: check_notified willNotify_def)
next
  show "notified (checkNetworkConnectivity now reachable w) = notified w
       \<or> notified (checkNetworkConnectivity now reachable w) = notified w @ [(now, kindOf reachable)]"
    by (simp add: check_notified)
next
  have "logInv (net_run ts (initialNetChecker s))"
    using logInv_initial by (rule logInv_run)
  then show sorted: "sorted_wrt cooldownGap (notified (net_run ts (initialNetChecker s)))"
    and "distinct_adj (map snd (notified (net_run ts (initialNetChecker s))))"
    by (simp_all add: logInv_def)
  show "\<forall>i j. i < j \<and> j < length (notified (net_run ts (initialNetChecker s)))
          \<and> snd (notified (net_run ts (initialNetChecker s)) ! i)
              = snd (notified (net_run ts (initialNetChecker s)) ! j) \<longrightarrow>
        NETWORK_NOTIFICATION_COOLDOWN
          < fst (notified (net_run ts (initialNetChecker s)) ! j)
            - fst (notified (net_run ts (initialNetChecker s)) ! i)"
    using sorted by (simp add: sorted_wrt_iff_nth_less cooldownGap_def)
  show "length (filter (\<lambda>n. a \<le> fst n \<and> fst n \<le> a + NETWORK_NOTIFICATION_COOLDOWN)
        (notified (net_run ts (initialNetChecker s)))) \<le> 1"
    using sorted by (rule at_most_one_in_window)
next
  assume a: "isConnected (networkStatus (nc_store w))
       \<and> NETWORK_NOTIFICATION_COOLDOWN < t0 - lastNetworkNotificationTime w
       \<and> lastNetworkNotificationType w \<noteq> Some Disconnected
       \<and> (\<forall>t\<in>set ts. fst t - t0 \<le> NETWORK_NOTIFICATION_COOLDOWN)"
  let ?w = "checkNetworkConnectivity t0 False w"
  from a have n: "willNotify t0 False w"
    by (simp add: willNotify_def kindOf_def)
  then have first: "notified ?w = notified w @ [(t0, Disconnected)]"
    and time: "lastNetworkNotificationTime ?w = t0"
    by (simp_all add: check_notified check_vars kindOf_def)
  from a time
  have "\<forall>t\<in>set ts. fst t - lastNetworkNotificationTime ?w \<le> NETWORK_NOTIFICATION_COOLDOWN"
    by simp
  from quiet_run [OF this] first
  show "notified (net_run ((t0, False) # ts) w) = notified w @ [(t0, Disconnected)]"
    by simp
qed

text \<open>
  The process starts connected; the network is lost at 100000 ms, back at 110000 ms and
  lost again at 120000 ms, and still lost at 130000 ms: one notification, for the first
  loss.
\<close>

theorem network_notifications_only_on_transitions_with_cooldown_witness:
  "notified (net_run [(100000, False), (110000, True), (120000, False)]
      (initialNetChecker (createInitialState 0))) = [(100000, Disconnected)]
   \<and> notified (checkNetworkConnectivity 130000 False
        (net_run [(100000, False), (110000, True), (120000, False)]
           (initialNetChecker (createInitialState 0))))
      = [(100000, Disconnected)]"
proof -
  let ?w0 = "initialNetChecker (createInitialState 0)"
  let ?w3 = "net_run [(100000, False), (110000, True), (120000, False)] ?w0"
  have pre: "isConnected (networkStatus (nc_store ?w0))
       \<and> NETWORK_NOTIFICATION_COOLDOWN < 100000 - lastNetworkNotificationTime ?w0
       \<and> lastNetworkNotificationType ?w0 \<noteq> Some Disconnected
       \<and> (\<forall>t\<in>set [(110000, True), (120000::int, False)].
             fst t - 100000 \<le> NETWORK_NOTIFICATION_COOLDOWN)"
    by (simp add: initialNetChecker_def createInitialState_def NETWORK_NOTIFICATION_COOLDOWN_def)
  have run: "notified ?w3 = [(100000, Disconnected)]"
    using network_notifications_only_on_transitions_with_cooldown
      [where w = ?w0 and ts = "[(110000, True), (120000, False)]" and ?t0.0 = 100000] pre
    by (simp add: initialNetChecker_def)
  have still: "isConnected (networkStatus (nc_store ?w3)) = False"
    by (simp add: check_connected)
  from network_notifications_only_on_transitions_with_cooldown
      [where w = ?w3 and reachable = False and now = 130000] still run
  show ?thesis by simp
qed

text \<open>
  Claim C5 as it was stated says that two disconnect events within the window give
  exactly one notification. The process starts connected; the network is lost at
  100000 ms (notified) and back at 110000 ms (not notified: the cooldown). It is lost
  again at 300000 ms: not notified, because the last notification sent was a disconnect
  one. It is back at 310000 ms (notified) and lost at 320000 ms: not notified, the
  cooldown again. The two disconnect events at 300000 ms and 320000 ms are 20 s apart and
  no disconnect notification is sent for them.
\<close>

theorem network_two_disconnects_in_window_not_notified:
  "notified (net_run [(100000, False), (110000, True), (300000, False), (310000, True),
        (320000, False)] (initialNetChecker (createInitialState 0)))
     = [(100000, Disconnected), (310000, Connected)]
   \<and> isConnected (networkStatus (nc_store (net_run [(100000, False), (110000, True)]
        (initialNetChecker (createInitialState 0)))))
   \<and> \<not> isConnected (networkStatus (nc_store (net_run [(100000, False), (110000, True),
        (300000, False)] (initialNetChecker (createInitialState 0)))))
   \<and> isConnected (networkStatus (nc_store (net_run [(100000, False), (110000, True),
        (300000, False), (310000, True)] (initialNetChecker (createInitialState 0)))))
   \<and> (320000::int) - 300000 \<le> NETWORK_NOTIFICATION_COOLDOWN
   \<and> length (filter (\<lambda>n. snd n = Disconnected \<and> 300000 \<le> fst n)
        (notified (net_run [(100000, False), (110000, True), (300000, False), (310000, True),
           (320000, False)] (initialNetChecker (createInitialState 0))))) = 0"
  by (simp add: check_notified check_vars check_connected willNotify_def kindOf_def
      initialNetChecker_def createInitialState_def NETWORK_NOTIFICATION_COOLDOWN_def)

section \<open>Recipient resolution: one entry per contact id\<close>






















lemma smsRecipients_eq:
  "smsRecipients (getRecipientsForAlert s)
     = filter (\<lambda>c. truthy (c_phone c) \<and> notifySms c) (allRecipients (getRecipientsForAlert s))"
  by (simp add: getRecipientsForAlert_def Let_def)


lemmas recipient_defs = getRecipientsForAlert_def recipientMapOf_def addGroup_def addMember_def
  addContact_def wantsNotifications_def truthy_def contactState_def contactStateRev_def
  demoContacts_def demoGroups_def demoContact_def





section \<open>Dispatch: one batched SMS request\<close>

lemma phonesOf_truthy:
  "list_all (\<lambda>c. truthy (c_phone c)) rs \<Longrightarrow> map Some (phonesOf rs) = map c_phone rs"
proof (induction rs)
  case Nil
  then show ?case by (simp add: phonesOf_def)
next
  case (Cons c cs)
  then obtain p where p: "c_phone c = Some p" and ne: "p \<noteq> []"
    by (auto simp add: truthy_def split: option.splits)
  from Cons have "map Some (phonesOf cs) = map c_phone cs" by simp
  with p ne show ?case by (simp add: phonesOf_def)
qed

lemma smsRecipients_truthy:
  "list_all (\<lambda>c. truthy (c_phone c)) (smsRecipients (getRecipientsForAlert s))"
  by (simp add: smsRecipients_eq list_all_iff)

lemma no_sms_in_speak: "filter isSmsRequest (speak st txt force) = []"
  by (simp add: speak_def isSmsRequest_def)

lemma no_sms_in_mails:
  "filter isSmsRequest (concat (map (\<lambda>c. sendEmail st (f c) subj) cs)) = []"
  by (induction cs) (simp_all add: sendEmail_def isSmsRequest_def)

text \<open>What \<open>sendAlertNotification\<close> sends to the SMS provider.\<close>

lemma sms_requests_of_alert:
  "filter isSmsRequest (sendAlertNotification s a mon) =
     (if smsEnabled (settings s) \<and> phonesOf (smsRecipients (getRecipientsForAlert s)) \<noteq> []
      then [SmsRequest (phonesOf (smsRecipients (getRecipientsForAlert s)))
              (if smsSenderId (settings s) = [] then ''PulseMonitor'' else smsSenderId (settings s))
              (''['' @ al_severity a @ ''] ''
                 @ (case mon of None \<Rightarrow> ''undefined'' | Some m \<Rightarrow> m_name m)
                 @ '': '' @ al_message a)]
      else [])"
  by (auto simp add: sendAlertNotification_def Let_def no_sms_in_speak no_sms_in_mails
      sendSmsBatch_def sendSms_def isSmsRequest_def phonesOf_def)

text \<open>
  Claim C7. For a triggered alert with N recipients that take SMS (contacts with a
  non-empty phone and the SMS flag set), the dispatcher makes exactly one request to the
  SMS provider, and its recipient list is the N phone numbers of those recipients, in
  their order; it does not make N requests. This is so when the SMS channel is enabled and
  N is at least one (the guards of the dispatcher); in every case it makes at most one
  request.
\<close>

theorem alert_sends_one_batched_sms_request:
  "length (filter isSmsRequest (sendAlertNotification s a mon)) \<le> 1
   \<and> (smsEnabled (settings s) \<and> smsRecipients (getRecipientsForAlert s) \<noteq> [] \<longrightarrow>
        (\<exists>sender msg.
           filter isSmsRequest (sendAlertNotification s a mon)
             = [SmsRequest (phonesOf (smsRecipients (getRecipientsForAlert s))) sender msg])
        \<and> map Some (phonesOf (smsRecipients (getRecipientsForAlert s)))
            = map c_phone (smsRecipients (getRecipientsForAlert s))
        \<and> length (phonesOf (smsRecipients (getRecipientsForAlert s)))
            = length (smsRecipients (getRecipientsForAlert s)))"
proof (intro conjI impI)
  show "length (filter isSmsRequest (sendAlertNotification s a mon)) \<le> 1"
    by (simp add: sms_requests_of_alert)
next
  let ?rs = "smsRecipients (getRecipientsForAlert s)"
  assume a: "smsEnabled (settings s) \<and> ?rs \<noteq> []"
  have m: "map Some (phonesOf ?rs) = map c_phone ?rs"
    using smsRecipients_truthy by (rule phonesOf_truthy)
  then have "length (map Some (phonesOf ?rs)) = length (map c_phone ?rs)" by simp
  then have l: "length (phonesOf ?rs) = length ?rs" by simp
  with a have ne: "phonesOf ?rs \<noteq> []" by auto
  show "map Some (phonesOf ?rs) = map c_phone ?rs" by (rule m)
  show "length (phonesOf ?rs) = length ?rs" by (rule l)
  show "\<exists>sender msg. filter isSmsRequest (sendAlertNotification s a mon)
      = [SmsRequest (phonesOf ?rs) sender msg]"
    using a ne by (simp add: sms_requests_of_alert)
qed

text \<open>Three recipients take SMS: one request with the three numbers.\<close>

theorem alert_sends_one_batched_sms_request_witness:
  "length (smsRecipients (getRecipientsForAlert contactState)) = 3
   \<and> phonesOf (smsRecipients (getRecipientsForAlert contactState))
       = [''0241234567'', ''0201234567'', ''0271234567'']
   \<and> (\<exists>sender msg.
        filter isSmsRequest (sendAlertNotification contactState demoAlert (Some demoMonitor))
          = [SmsRequest [''0241234567'', ''0201234567'', ''0271234567''] sender msg])"
proof -
  have en: "smsEnabled (settings contactState)"
    by (simp add: contactState_def demoState_def initialSettings_def)
  have rs: "map c_phone (smsRecipients (getRecipientsForAlert contactState))
      = [Some ''0241234567'', Some ''0201234567'', Some ''0271234567'']"
    by (simp add: recipient_defs demo_defs)
  then have ne: "smsRecipients (getRecipientsForAlert contactState) \<noteq> []"
    by auto
  from rs have n: "length (smsRecipients (getRecipientsForAlert contactState)) = 3"
    by (metis length_map length_Cons list.size(3) numeral_3_eq_3)
  from alert_sends_one_batched_sms_request
    [where s = contactState and a = demoAlert and mon = "Some demoMonitor"] en ne
  obtain sender msg where
    one: "filter isSmsRequest (sendAlertNotification contactState demoAlert (Some demoMonitor))
        = [SmsRequest (phonesOf (smsRecipients (getRecipientsForAlert contactState))) sender msg]"
    and ph: "map Some (phonesOf (smsRecipients (getRecipientsForAlert contactState)))
        = map c_phone (smsRecipients (getRecipientsForAlert contactState))"
    by blast
  from ph rs have "map Some (phonesOf (smsRecipients (getRecipientsForAlert contactState)))
      = map Some [''0241234567'', ''0201234567'', ''0271234567'']"
    by simp
  then have p: "phonesOf (smsRecipients (getRecipientsForAlert contactState))
      = [''0241234567'', ''0201234567'', ''0271234567'']"
    by (simp only: inj_map_eq_map [OF inj_Some])
  from n p one show ?thesis by auto
qed

section \<open>The HTTP probe\<close>

lemma contentOkOf_iff:
  "contentOkOf mon statusOk dataText =
     (statusOk \<longrightarrow>
        (\<forall>ec. m_expectedContent mon = Some ec \<and> ec \<noteq> [] \<longrightarrow> dataIncludes dataText ec))"
  by (auto simp add: contentOkOf_def split: option.splits)

lemma checkHttp_status_response:
  "cr_status (checkHttp mon (Response code body parsed) tls elapsed now) =
     (if code = effectiveExpectedStatus (m_expectedStatus mon)
         \<and> contentOkOf mon (code = effectiveExpectedStatus (m_expectedStatus mon))
              (responseDataText body parsed)
      then UP else DOWN)"
  by (simp add: checkHttp_def Let_def)

lemma checkHttp_status_failed:
  "cr_status (checkHttp mon (RequestFailed msg) tls elapsed now) = DOWN"
  by (simp add: checkHttp_def)

text \<open>
  \<open>checkHttp\<close> reports UP exactly when a response arrived, its status is the expected
  one, and the expected content, when one is set, occurs in the text of
  \<open>response.data\<close>.
\<close>

lemma checkHttp_up_iff:
  "(cr_status (checkHttp mon outcome tls elapsed now) = UP) =
     (\<exists>code body parsed. outcome = Response code body parsed
        \<and> code = effectiveExpectedStatus (m_expectedStatus mon)
        \<and> (\<forall>ec. m_expectedContent mon = Some ec \<and> ec \<noteq> [] \<longrightarrow>
              dataIncludes (responseDataText body parsed) ec))"
proof (cases outcome)
  case (RequestFailed msg)
  then show ?thesis by (simp add: checkHttp_status_failed)
next
  case (Response code body parsed)
  then show ?thesis
    by (auto simp add: checkHttp_status_response contentOkOf_iff)
qed

text \<open>For a body that is not JSON text the data is the body, and the body is searched.\<close>

lemma checkHttp_up_iff_plain_body:
  "(cr_status (checkHttp mon (Response code body None) tls elapsed now) = UP) =
     (code = effectiveExpectedStatus (m_expectedStatus mon)
      \<and> (\<forall>ec. m_expectedContent mon = Some ec \<and> ec \<noteq> [] \<longrightarrow> sublist ec body))"
  by (simp add: checkHttp_up_iff responseDataText_def dataIncludes_def)

text \<open>For a body that is a JSON object the text \<open>[object Object]\<close> is searched.\<close>

lemma checkHttp_up_iff_json_object:
  "(cr_status (checkHttp mon (Response code body (Some (JObj members))) tls elapsed now) = UP) =
     (code = effectiveExpectedStatus (m_expectedStatus mon)
      \<and> (\<forall>ec. m_expectedContent mon = Some ec \<and> ec \<noteq> [] \<longrightarrow> sublist ec ''[object Object]''))"
  by (simp add: checkHttp_up_iff responseDataText_def dataIncludes_def)

text \<open>The expected status: the configured one, 200 when none (or zero) is configured.\<close>

lemma effectiveExpectedStatus_values:
  "effectiveExpectedStatus NoExpected = 200"
  "n \<noteq> 0 \<Longrightarrow> effectiveExpectedStatus (Code n) = n"
  "n \<noteq> 0 \<Longrightarrow> effectiveExpectedStatus (Codes (n # ns)) = n"
  "effectiveExpectedStatus (Code 0) = 200"
  "effectiveExpectedStatus (Codes []) = 200"
  by (simp_all add: effectiveExpectedStatus_def)

text \<open>
  The certificate is read after the status is fixed, for an HTTPS URL only; what the TLS
  connection gives, a certificate or a failure, never changes the status.
\<close>

lemma checkHttp_status_independent_of_tls:
  "cr_status (checkHttp mon outcome tls' elapsed now')
     = cr_status (checkHttp mon outcome tls elapsed now)"
  by (cases outcome) (simp_all add: checkHttp_status_failed checkHttp_status_response)

lemma checkHttp_sslInfo:
  "cr_sslInfo (checkHttp mon (Response code body parsed) tls elapsed now)
     = (if startsWithHttps (m_url mon) then getSSLInfo now tls else None)"
  by (simp add: checkHttp_def Let_def)

lemma getSSLInfo_values:
  "getSSLInfo now TlsFailed = None"
  "getSSLInfo now (TlsConnected None) = None"
  "getSSLInfo now (TlsConnected (Some cert)) =
     Some \<lparr> issuer = pc_issuer cert, validFrom = pc_valid_from cert, validTo = pc_valid_to cert,
            daysRemaining = (pc_valid_to_ms cert - now) div 86400000,
            subject = pc_subject cert \<rparr>"
  by (simp_all add: getSSLInfo_def)

lemmas http_defs = checkHttp_def contentOkOf_def responseDataText_def dataIncludes_def
  effectiveExpectedStatus_def startsWithHttps_def getSSLInfo_def healthMonitor_def
  demoMonitor_def demoCert_def jsonBody_def jsonValue_def Let_def

text \<open>
  Claim C8, at the input where the code leaves it. The monitor expects status 200 (no
  status is configured) and the text healthy. The page answers 200 with the JSON body
  \<open>{"status":"healthy"}\<close>: the status equals the expected one and the body contains
  the text, and \<open>checkHttp\<close> reports DOWN with a content mismatch, because it searches
  \<open>[object Object]\<close>, the text of the parsed data. The certificate is fetched and
  reported as the claim says. The same answer as plain text, or as JSON to a monitor that
  expects no content, is UP; with status 404 configured, a 404 answer is UP and a 200 one
  DOWN.
\<close>

theorem checkHttp_json_body_reports_content_mismatch:
  "checkHttp healthMonitor (Response 200 jsonBody (Some jsonValue)) (TlsConnected (Some demoCert))
       12 5000
     = \<lparr> cr_status = DOWN, cr_responseTime = 12, cr_message = ''HTTP 200 (content mismatch)'',
         cr_statusCode = Some 200,
         cr_sslInfo = Some \<lparr> issuer = ''Example CA'', validFrom = ''Jan  1 00:00:00 2026 GMT'',
           validTo = ''Jan  1 00:00:00 2027 GMT'', daysRemaining = 30,
           subject = ''example.org'' \<rparr> \<rparr>
   \<and> effectiveExpectedStatus (m_expectedStatus healthMonitor) = 200
   \<and> sublist ''healthy'' jsonBody
   \<and> cr_status (checkHttp healthMonitor (Response 200 ''status: healthy'' None)
        (TlsConnected (Some demoCert)) 12 5000) = UP
   \<and> cr_status (checkHttp demoMonitor (Response 200 jsonBody (Some jsonValue))
        (TlsConnected (Some demoCert)) 12 5000) = UP
   \<and> cr_status (checkHttp (healthMonitor\<lparr> m_expectedStatus := Code 404 \<rparr>)
        (Response 404 ''healthy'' None) TlsFailed 12 5000) = UP
   \<and> cr_status (checkHttp (healthMonitor\<lparr> m_expectedStatus := Code 404 \<rparr>)
        (Response 200 ''healthy'' None) TlsFailed 12 5000) = DOWN"
  by (simp add: http_defs sublist_code)

section \<open>Recovery and the auto-resolve setting\<close>

lemma update_first_none: "find P xs = None \<Longrightarrow> update_first P f xs = xs"
  by (induction xs) (auto split: if_splits)

lemma update_first_found: "find P xs = Some x \<Longrightarrow> f x \<in> set (update_first P f xs)"
  by (induction xs) (auto split: if_splits)

lemma filter_update_first:
  assumes "\<And>x. \<not> P (f x)"
  shows "filter P (update_first P f xs) = tl (filter P xs)"
  using assms by (induction xs) auto

lemma resolved_not_ongoing: "\<not> isOngoingFor m (resolveIncidentRecord now i)"
  by (simp add: isOngoingFor_def resolveIncidentRecord_def)

lemma resolveIncidentForMonitor_found:
  assumes "find (isOngoingFor m) (incidents s) = Some i"
  shows "incidents (resolveIncidentForMonitor now m s)
           = update_first (isOngoingFor m) (resolveIncidentRecord now) (incidents s)"
    and "alerts (resolveIncidentForMonitor now m s)
           = map (\<lambda>a. if isActiveFor m a then resolveAlertRecord now a else a) (alerts s)"
  using assms by (simp_all add: resolveIncidentForMonitor_def)

text \<open>
  What \<open>updateStatus\<close> does on a step from DOWN to UP. With auto-resolve enabled, the
  first ongoing incident of the monitor gets status resolved, its resolve time and its
  duration, and no alert of the monitor stays active. With auto-resolve disabled it
  changes neither the incidents nor the alerts.
\<close>

lemma updateStatus_recovery_auto_resolve:
  assumes "ms_status (currentStatusOf s m) = DOWN" and "cr_status r = UP"
    and "autoResolve (settings s)" and "find (isOngoingFor m) (incidents s) = Some i"
  shows "resolveIncidentRecord now i \<in> set (incidents (updateStatus now m r s))"
    and "inc_status (resolveIncidentRecord now i) = IncidentResolved"
    and "inc_resolvedAt (resolveIncidentRecord now i) = Some now"
    and "inc_duration (resolveIncidentRecord now i) = Some (now - inc_startedAt i)"
    and "list_all (\<lambda>a. \<not> isActiveFor m a) (alerts (updateStatus now m r s))"
proof -
  let ?s1 = "s\<lparr> statuses := (statuses s)(m \<mapsto> newStatusOf now (currentStatusOf s m) r) \<rparr>"
  have u: "updateStatus now m r s = resolveIncidentForMonitor now m ?s1"
    using assms(3) by (simp add: updateStatus_down_up [OF assms(1,2)])
  have f: "find (isOngoingFor m) (incidents ?s1) = Some i"
    using assms(4) by simp
  have inc: "incidents (updateStatus now m r s)
      = update_first (isOngoingFor m) (resolveIncidentRecord now) (incidents s)"
    using resolveIncidentForMonitor_found(1) [OF f, of now] by (simp add: u)
  have al: "alerts (updateStatus now m r s)
      = map (\<lambda>a. if isActiveFor m a then resolveAlertRecord now a else a) (alerts s)"
    using resolveIncidentForMonitor_found(2) [OF f, of now] by (simp add: u)
  have "resolveIncidentRecord now i
      \<in> set (update_first (isOngoingFor m) (resolveIncidentRecord now) (incidents s))"
    using assms(4) by (rule update_first_found)
  then show "resolveIncidentRecord now i \<in> set (incidents (updateStatus now m r s))"
    by (simp only: inc)
  have "\<not> isActiveFor m (resolveAlertRecord now a)" for a
    by (simp add: isActiveFor_def resolveAlertRecord_def)
  then show "list_all (\<lambda>a. \<not> isActiveFor m a) (alerts (updateStatus now m r s))"
    by (auto simp add: al list_all_iff)
  show "inc_status (resolveIncidentRecord now i) = IncidentResolved"
    by (simp add: resolveIncidentRecord_def)
  show "inc_resolvedAt (resolveIncidentRecord now i) = Some now"
    by (simp add: resolveIncidentRecord_def)
  show "inc_duration (resolveIncidentRecord now i) = Some (now - inc_startedAt i)"
    by (simp add: resolveIncidentRecord_def)
qed

lemma updateStatus_recovery_no_auto_resolve:
  assumes "ms_status (currentStatusOf s m) = DOWN" and "cr_status r = UP"
    and "\<not> autoResolve (settings s)"
  shows "incidents (updateStatus now m r s) = incidents s"
    and "alerts (updateStatus now m r s) = alerts s"
  using assms(3) by (simp_all add: updateStatus_down_up [OF assms(1,2)])

text \<open>
  \<open>runCheck\<close> after that: on a step from DOWN to UP it resolves the first alert of
  the monitor that is still active, without reading the auto-resolve setting. With the
  setting disabled this is the alert \<open>updateStatus\<close> left active.
\<close>

lemma runCheckComplete_recovery_no_auto_resolve:
  assumes "statuses s m = Some st" and "ms_status st = DOWN" and "cr_status r = UP"
    and "\<not> autoResolve (settings s)"
  shows "incidents (fst (runCheckComplete now m mon r s)) = incidents s"
    and "alerts (fst (runCheckComplete now m mon r s))
           = update_first (isActiveFor m) (resolveAlertRecord now) (alerts s)"
proof -
  have d: "ms_status (currentStatusOf s m) = DOWN"
    using assms(1,2) by (simp add: currentStatusOf_def)
  note same = updateStatus_recovery_no_auto_resolve [OF d assms(3,4), of now]
  show "incidents (fst (runCheckComplete now m mon r s)) = incidents s"
    using assms(1-3) same
    by (simp add: runCheckComplete_def Let_def resolveFoundAlert_def split: option.splits)
  show "alerts (fst (runCheckComplete now m mon r s))
           = update_first (isActiveFor m) (resolveAlertRecord now) (alerts s)"
    using assms(1-3) same
    by (simp add: runCheckComplete_def Let_def resolveFoundAlert_def update_first_none
        split: option.splits)
qed

text \<open>
  Claim C4, at the input where the code leaves it. Auto-resolve is disabled. The monitor
  is checked by the scheduler and is UP, then DOWN (an incident and an alert open), then
  UP again. After the step from DOWN to UP the incident is still ongoing, and the alert,
  active before the step, is resolved: \<open>runCheck\<close> resolved it.
\<close>

theorem recovery_without_auto_resolve_resolves_alert:
  "map al_status (alerts (store (sched_run
      [TimerFires ''m1'', ProbeResolves 1000 ''m1'' (sample UP ''ok''),
       TimerFires ''m1'', ProbeResolves 61000 ''m1'' (sample DOWN ''refused'')]
      (demoScheduler False)))) = [Active]
   \<and> map al_status (alerts (store (sched_run
      [TimerFires ''m1'', ProbeResolves 1000 ''m1'' (sample UP ''ok''),
       TimerFires ''m1'', ProbeResolves 61000 ''m1'' (sample DOWN ''refused''),
       TimerFires ''m1'', ProbeResolves 121000 ''m1'' (sample UP ''ok'')]
      (demoScheduler False)))) = [AlertResolved]
   \<and> map inc_status (incidents (store (sched_run
      [TimerFires ''m1'', ProbeResolves 1000 ''m1'' (sample UP ''ok''),
       TimerFires ''m1'', ProbeResolves 61000 ''m1'' (sample DOWN ''refused''),
       TimerFires ''m1'', ProbeResolves 121000 ''m1'' (sample UP ''ok'')]
      (demoScheduler False)))) = [Ongoing]"
  by (simp add: sched_defs demo_defs machine_defs notify_defs)

section \<open>The number of ongoing incidents\<close>

text \<open>
  While auto-resolve is enabled, \<open>updateStatus\<close> keeps at most one ongoing incident
  per monitor, and none unless the monitor is DOWN.
\<close>

lemma singleOngoing_updateStatus:
  assumes "autoResolve (settings s)" and "cr_status r = UP \<or> cr_status r = DOWN"
    and "singleOngoing s m"
  shows "singleOngoing (updateStatus now m r s) m"
proof -
  let ?P = "isOngoingFor m"
  let ?s' = "updateStatus now m r s"
  from assms(3) have le: "length (filter ?P (incidents s)) \<le> 1"
    and quiet: "ms_status (currentStatusOf s m) \<noteq> DOWN \<Longrightarrow> filter ?P (incidents s) = []"
    by (simp_all add: singleOngoing_def ongoingIncidentsOf_def)
  have goal: "length (filter ?P (incidents ?s')) \<le> 1
      \<and> (cr_status r \<noteq> DOWN \<longrightarrow> filter ?P (incidents ?s') = [])"
  proof (cases "ms_status (currentStatusOf s m)")
    case PENDING
    with quiet show ?thesis
      by (simp add: updateStatus_pending [OF PENDING])
  next
    case UP
    with quiet have none: "filter ?P (incidents s) = []" by simp
    show ?thesis
    proof (cases "cr_status r = DOWN")
      case True
      with none show ?thesis
        by (simp add: updateStatus_up_down [OF UP True] createIncident_incidents
            newIncident_fields isOngoingFor_def)
    next
      case False
      with none show ?thesis
        by (simp add: updateStatus_up_up [OF UP False])
    qed
  next
    case DOWN
    show ?thesis
    proof (cases "cr_status r = DOWN")
      case True
      with le show ?thesis
        by (auto simp add: updateStatus_down_down [OF DOWN True] Let_def
            createIncident_incidents newIncident_fields isOngoingFor_def find_None_filter)
    next
      case False
      with assms(2) have up: "cr_status r = UP" by simp
      have "filter ?P (incidents ?s') = []"
      proof (cases "find ?P (incidents s)")
        case None
        then have "incidents ?s' = incidents s"
          using assms(1)
          by (simp add: updateStatus_down_up [OF DOWN up] resolveIncidentForMonitor_def Let_def)
        moreover from None have "filter ?P (incidents s) = []"
          by (simp add: find_None_filter)
        ultimately show ?thesis by simp
      next
        case (Some i)
        let ?s1 = "s\<lparr> statuses := (statuses s)(m \<mapsto> newStatusOf now (currentStatusOf s m) r) \<rparr>"
        have f: "find ?P (incidents ?s1) = Some i"
          using Some by simp
        have "filter ?P (incidents ?s') = tl (filter ?P (incidents s))"
          using assms(1)
          by (simp add: updateStatus_down_up [OF DOWN up]
              resolveIncidentForMonitor_found(1) [OF f] filter_update_first resolved_not_ongoing)
        with le show ?thesis
          by (cases "filter ?P (incidents s)") simp_all
      qed
      then show ?thesis by simp
    qed
  qed
  then show ?thesis
    by (simp add: singleOngoing_def ongoingIncidentsOf_def status_after_updateStatus)
qed

text \<open>
  Claim C1, at the input where the code leaves it. Auto-resolve is disabled. The samples
  UP, DOWN, UP, DOWN are fed to a new monitor. The first DOWN opens an incident; the
  recovery leaves it ongoing; the second DOWN, again a step from UP to DOWN, opens
  another one: two ongoing incidents of one monitor.
\<close>

theorem second_ongoing_incident_after_unresolved_recovery:
  "map inc_status (ongoingIncidentsOf (feed ''m1''
      [(1000, sample UP ''ok''), (2000, sample DOWN ''refused''), (3000, sample UP ''ok'')]
      (demoState False)) ''m1'') = [Ongoing]
   \<and> map inc_status (ongoingIncidentsOf (feed ''m1''
      [(1000, sample UP ''ok''), (2000, sample DOWN ''refused''), (3000, sample UP ''ok''),
       (4000, sample DOWN ''timeout'')]
      (demoState False)) ''m1'') = [Ongoing, Ongoing]"
  by (simp add: demo_defs machine_defs ongoingIncidentsOf_def)

section \<open>Deleting a monitor while its probe runs\<close>

lemma runCheckComplete_statuses:
  "statuses (fst (runCheckComplete now m mon r s)) = statuses (updateStatus now m r s)"
  by (simp add: runCheckComplete_def Let_def resolveFoundAlert_def split: option.splits)

text \<open>
  The handler of \<open>monitor:delete\<close> clears the timer, so the timer does not fire again,
  and removes the Status of a monitor it knows.
\<close>

lemma delete_stops_timer:
  "m \<notin> set (monitorIntervals (sched_step (MonitorDelete m) w))"
  "sched_step (TimerFires m) (sched_step (MonitorDelete m) w) = sched_step (MonitorDelete m) w"
  "monitors (store w) m = Some mon \<Longrightarrow> statuses (store (sched_step (MonitorDelete m) w)) m = None"
  by (simp_all add: sched_step_def stopMonitorInterval_def deleteMonitor_def Let_def)

text \<open>
  A probe that was started before the delete resolves after it: \<open>runCheck\<close> looked
  the monitor up before the await only, and \<open>updateStatus\<close> writes a Status under the id.
\<close>

lemma probe_after_delete_writes_status:
  assumes "map_of (inFlight w) m = Some mon"
  shows "statuses (store (sched_step (ProbeResolves now m r) (sched_step (MonitorDelete m) w))) m
           \<noteq> None"
proof -
  have "map_of (inFlight (sched_step (MonitorDelete m) w)) m = Some mon"
    using assms by (simp add: sched_step_def stopMonitorInterval_def Let_def)
  then show ?thesis
    by (simp add: sched_step_def [of "ProbeResolves now m r"] Let_def runCheckComplete_statuses
        updateStatus_statuses)
qed

text \<open>
  Claim C9, at the input where the code leaves it. The timer of the enabled monitor
  fires and its probe starts; the monitor is deleted: the timer is gone and the monitor
  has no Status; the probe resolves with DOWN: a Status with status DOWN is stored under
  the deleted id.
\<close>

theorem probe_result_applied_after_delete:
  "monitorIntervals (sched_run [TimerFires ''m1'', MonitorDelete ''m1''] (demoScheduler True)) = []
   \<and> statuses (store (sched_run [TimerFires ''m1'', MonitorDelete ''m1'']
        (demoScheduler True))) ''m1'' = None
   \<and> map_option ms_status (statuses (store (sched_run
        [TimerFires ''m1'', MonitorDelete ''m1'', ProbeResolves 1000 ''m1'' (sample DOWN ''refused'')]
        (demoScheduler True))) ''m1'') = Some DOWN"
  by (simp add: sched_defs demo_defs machine_defs notify_defs)

end
